theory Spec2Isabelle
  imports Complex_Main
begin

section \<open>Values, strings and parsing helpers\<close>

text \<open>
  A shallow embedding of the transaction processor of the shop backend: the sales router
  (\<^verbatim>\<open>backend/routes/sales.js\<close>), the purchases router
  (\<^verbatim>\<open>backend/routes/purchases.js\<close>), the dashboard metrics
  (\<^verbatim>\<open>utils/dashboardMetrics.js\<close>) and the Mongoose schemas they write through.

  The backend is JavaScript. Quantities, reorder points and counters are \<^typ>\<open>int\<close>:
  they stand for the integer-valued Numbers of the code, and the two places where such a
  Number is not handled as the integer it denotes are modelled (\<open>roundToDouble\<close> for the
  result of an addition or subtraction, \<open>numberParseInt\<close> for
  \<^verbatim>\<open>Number.parseInt\<close> of a stored Number); Numbers from \<open>2 ^ 1024\<close> on
  (\<^verbatim>\<open>Infinity\<close>) are outside the model. Prices and money amounts are
  \<^typ>\<open>rat\<close>, computed exactly. A field of a request body that is parsed with
  \<^verbatim>\<open>Number.parseInt(value, 10)\<close> or \<^verbatim>\<open>Number.parseFloat(value)\<close> is given
  as an option: \<open>None\<close> stands for \<^verbatim>\<open>null\<close>, \<^verbatim>\<open>undefined\<close>, the empty
  string and every value the parser maps to \<^verbatim>\<open>NaN\<close>; \<open>Some v\<close> is the number the
  parser returns. A string field is \<open>None\<close> when it is \<^verbatim>\<open>null\<close> or
  \<^verbatim>\<open>undefined\<close>.

  Strings are the UTF-8 bytes of the JavaScript strings. The database is a value passed
  through every operation; an operation on it fails only where the model says so (schema
  validation in \<^verbatim>\<open>save()\<close>, a transaction on a server without transaction
  support), and one request runs at a time.
\<close>

definition truthy :: "string option \<Rightarrow> bool" where
  "truthy v = (case v of None \<Rightarrow> False | Some s \<Rightarrow> s \<noteq> [])"

definition startsWith :: "string \<Rightarrow> string \<Rightarrow> bool" where
  "startsWith s t = (take (length t) s = t)"

text \<open>
  The white space and line terminators that \<^verbatim>\<open>String.prototype.trim\<close> strips, in
  UTF-8: U+0009 to U+000D, U+0020, U+00A0, U+1680, U+2000 to U+200A, U+2028, U+2029,
  U+202F, U+205F, U+3000 and U+FEFF.
\<close>

definition whiteSpace :: "string list" where
  "whiteSpace =
     [[CHR 0x09], [CHR 0x0A], [CHR 0x0B], [CHR 0x0C], [CHR 0x0D], [CHR 0x20],
      [CHR 0xC2, CHR 0xA0], [CHR 0xE1, CHR 0x9A, CHR 0x80]] @
     map (\<lambda>c. [CHR 0xE2, CHR 0x80, c])
       [CHR 0x80, CHR 0x81, CHR 0x82, CHR 0x83, CHR 0x84, CHR 0x85, CHR 0x86, CHR 0x87,
        CHR 0x88, CHR 0x89, CHR 0x8A, CHR 0xA8, CHR 0xA9, CHR 0xAF] @
     [[CHR 0xE2, CHR 0x81, CHR 0x9F], [CHR 0xE3, CHR 0x80, CHR 0x80],
      [CHR 0xEF, CHR 0xBB, CHR 0xBF]]"

text \<open>
  \<open>stripLeading ws s\<close> drops from the head of \<open>s\<close> every leading occurrence of one
  of the sequences \<open>ws\<close>; \<open>trim\<close> strips the white space at both ends (at the end,
  on the reversed string).
\<close>

function stripLeading :: "string list \<Rightarrow> string \<Rightarrow> string" where
  "stripLeading ws s =
     (case find (\<lambda>w. w \<noteq> [] \<and> startsWith s w) ws of
        None \<Rightarrow> s
      | Some w \<Rightarrow> stripLeading ws (drop (length w) s))"
  by pat_completeness auto
termination
proof (relation "measure (\<lambda>(ws, s). length s)")
  show "wf (measure (\<lambda>(ws, s). length s))" by simp
next
  fix ws :: "string list" and s w :: string
  assume "find (\<lambda>w. w \<noteq> [] \<and> startsWith s w) ws = Some w"
  then have "w \<noteq> []" and "startsWith s w" by (auto simp: find_Some_iff)
  then have "s \<noteq> []" by (auto simp: startsWith_def)
  with \<open>w \<noteq> []\<close> show "((ws, drop (length w) s), (ws, s)) \<in> measure (\<lambda>(ws, s). length s)"
    by simp
qed

declare stripLeading.simps [simp del]

definition trim :: "string \<Rightarrow> string" where
  "trim s = rev (stripLeading (map rev whiteSpace) (rev (stripLeading whiteSpace s)))"

text \<open>\<^verbatim>\<open>normalizeString = (value) => String(value ?? "").trim()\<close>\<close>

definition normalizeString :: "string option \<Rightarrow> string" where
  "normalizeString v = trim (case v of None \<Rightarrow> [] | Some s \<Rightarrow> s)"

definition upperChar :: "char \<Rightarrow> char" where
  "upperChar c = (if 97 \<le> (of_char c :: nat) \<and> (of_char c :: nat) \<le> 122
                  then char_of ((of_char c :: nat) - 32) else c)"

definition lowerChar :: "char \<Rightarrow> char" where
  "lowerChar c = (if 65 \<le> (of_char c :: nat) \<and> (of_char c :: nat) \<le> 90
                  then char_of ((of_char c :: nat) + 32) else c)"

definition isAscii :: "string \<Rightarrow> bool" where
  "isAscii s = list_all (\<lambda>c. (of_char c :: nat) < 128) s"

text \<open>\<^verbatim>\<open>s.includes(t)\<close>: \<open>t\<close> occurs in \<open>s\<close> as a contiguous substring.\<close>

fun includes_str :: "string \<Rightarrow> string \<Rightarrow> bool" where
  "includes_str [] t = (t = [])"
| "includes_str (c # s) t = (startsWith (c # s) t \<or> includes_str s t)"

definition isHexDigit :: "char \<Rightarrow> bool" where
  "isHexDigit c = (let n = (of_char c :: nat) in
     (48 \<le> n \<and> n \<le> 57) \<or> (97 \<le> n \<and> n \<le> 102) \<or> (65 \<le> n \<and> n \<le> 70))"

text \<open>The test \<^verbatim>\<open>/^[0-9a-fA-F]{24}$/.test(trimmed)\<close>.\<close>

definition isObjectIdHex :: "string \<Rightarrow> bool" where
  "isObjectIdHex s = (length s = 24 \<and> list_all isHexDigit s)"

definition digitChar :: "nat \<Rightarrow> char" where
  "digitChar d = char_of (48 + d)"

fun showNat :: "nat \<Rightarrow> string" where
  "showNat n = (if n < 10 then [digitChar n] else showNat (n div 10) @ [digitChar (n mod 10)])"

declare showNat.simps [simp del]

text \<open>
  \<^verbatim>\<open>parseInteger(value, fallback)\<close> and \<^verbatim>\<open>parseNumber(value, fallback)\<close>:
  the fallback is returned for \<^verbatim>\<open>null\<close>, \<^verbatim>\<open>undefined\<close>, \<^verbatim>\<open>""\<close>
  and for a \<^verbatim>\<open>NaN\<close> parse, the parsed number otherwise.
\<close>

definition parseInteger :: "int option \<Rightarrow> int \<Rightarrow> int" where
  "parseInteger v fallback = (case v of None \<Rightarrow> fallback | Some n \<Rightarrow> n)"

definition parseNumber :: "rat option \<Rightarrow> rat \<Rightarrow> rat" where
  "parseNumber v fallback = (case v of None \<Rightarrow> fallback | Some x \<Rightarrow> x)"

section \<open>Integer-valued Numbers\<close>


function bitLength :: "int \<Rightarrow> nat" where
  "bitLength n = (if n \<le> 0 then 0 else Suc (bitLength (n div 2)))"
  by pat_completeness auto
termination
  by (relation "measure nat") auto

declare bitLength.simps [simp del]

definition roundMagnitude :: "int \<Rightarrow> int" where
  "roundMagnitude m =
     (if m < 2 ^ 53 then m
      else let e = bitLength m - 53;
               q = m div 2 ^ e;
               r = m mod 2 ^ e;
               h = 2 ^ (e - 1)
           in (if h < r \<or> (r = h \<and> odd q) then q + 1 else q) * 2 ^ e)"

definition roundToDouble :: "int \<Rightarrow> int" where
  "roundToDouble n = sgn n * roundMagnitude \<bar>n\<bar>"

text \<open>
  \<^verbatim>\<open>Number.parseInt(n, 10)\<close> of an integer-valued Number \<open>n\<close> parses
  \<^verbatim>\<open>String(n)\<close>. Below \<open>10 ^ 21\<close> in absolute value that string is the decimal
  numeral of \<open>n\<close>. From \<open>10 ^ 21\<close> on it is the exponent notation
  \<^verbatim>\<open>d.ddde+x\<close> with the fewest digits that still denote the same double (the
  nearest such digits where several fit, the even ones on a tie), and
  \<^verbatim>\<open>parseInt\<close> reads up to the point: the first digit. \<open>digitsOfLength v k\<close> looks
  for \<open>k\<close> digits that denote \<open>v\<close>; 17 digits always suffice for a double.
\<close>

function decimalLength :: "int \<Rightarrow> nat" where
  "decimalLength n = (if n < 10 then 1 else Suc (decimalLength (n div 10)))"
  by pat_completeness auto
termination
  by (relation "measure nat") auto

declare decimalLength.simps [simp del]

function firstDigit :: "int \<Rightarrow> int" where
  "firstDigit n = (if n < 10 then n else firstDigit (n div 10))"
  by pat_completeness auto
termination
  by (relation "measure nat") auto

declare firstDigit.simps [simp del]

definition digitsOfLength :: "int \<Rightarrow> nat \<Rightarrow> int option" where
  "digitsOfLength v k =
     (let e = decimalLength v - k;
          lo = v div 10 ^ e;
          hi = lo + 1;
          okLo = (roundMagnitude (lo * 10 ^ e) = v);
          okHi = (roundMagnitude (hi * 10 ^ e) = v);
          dLo = v - lo * 10 ^ e;
          dHi = hi * 10 ^ e - v
      in if okLo \<and> okHi
         then (if dLo < dHi then Some lo else if dHi < dLo then Some hi
               else if even lo then Some lo else Some hi)
         else if okLo then Some lo
         else if okHi then Some hi
         else None)"

definition shortestDigits :: "int \<Rightarrow> int" where
  "shortestDigits v =
     (case List.map_filter (digitsOfLength v) [1..<18] of
        [] \<Rightarrow> v
      | s # _ \<Rightarrow> s)"

definition numberParseInt :: "int \<Rightarrow> int" where
  "numberParseInt n =
     (if \<bar>n\<bar> < 10 ^ 21 then n
      else sgn n * firstDigit (shortestDigits \<bar>n\<bar>))"

section \<open>Documents and collections\<close>

text \<open>
  The \<^verbatim>\<open>productSchema\<close> of the Product model (collection \<^verbatim>\<open>inventory\<close>).
  The \<^verbatim>\<open>_id\<close> path is \<^verbatim>\<open>Mixed\<close>: an ObjectId (the schema default, given by
  its 24 hexadecimal digits) or a string. \<open>idString\<close> is \<^verbatim>\<open>String(_id)\<close>. The
  \<^verbatim>\<open>createdAt\<close> and \<^verbatim>\<open>updatedAt\<close> timestamps that Mongoose maintains are left
  out.
\<close>

datatype objId = ObjectId string | StringId string

fun idString :: "objId \<Rightarrow> string" where
  "idString (ObjectId h) = h"
| "idString (StringId s) = s"

record product =
  p_id :: objId
  p_name :: string
  p_sku :: string
  p_productId :: string
  p_price :: rat
  p_quantity :: int
  p_reorderPoint :: int
  p_size :: "string option"
  p_gsm :: "string option"
  p_image :: "string option"

text \<open>
  The line items and the parent records of the Sale and Purchase models. The generated
  \<^verbatim>\<open>_id\<close> of a parent record is left out; \<open>s_createdAt\<close> is \<open>None\<close> when the
  timestamp is the default one of the save.
\<close>

record saleItem =
  si_productId :: string
  si_productName :: string
  si_quantity :: int
  si_price :: rat
  si_pricePerQuantity :: rat
  si_total :: rat
  si_size :: string
  si_gsm :: string

record sale =
  s_billId :: string
  s_customerName :: string
  s_subtotal :: rat
  s_tax :: rat
  s_total :: rat
  s_items :: "saleItem list"
  s_createdAt :: "int option"

record purchaseItem =
  pi_productId :: string
  pi_productName :: string
  pi_quantity :: int
  pi_price :: rat
  pi_total :: rat
  pi_size :: string
  pi_gsm :: string

record purchase =
  pu_billId :: string
  pu_supplierName :: string
  pu_subtotal :: rat
  pu_tax :: rat
  pu_total :: rat
  pu_items :: "purchaseItem list"

text \<open>The singleton document of the DashboardStat model (\<^verbatim>\<open>_id = "global"\<close>).\<close>

record dashboardStat =
  d_totalSales :: rat
  d_inventoryValue :: rat
  d_orders :: int
  d_lowStock :: int
  d_outOfStock :: int

text \<open>
  The database: one list per collection, in natural order, and the dashboard singleton.
\<close>

record db =
  inventory :: "product list"
  sales :: "sale list"
  purchases :: "purchase list"
  dashboard_stats :: "dashboardStat option"

section \<open>Errors\<close>

text \<open>
  Every \<^verbatim>\<open>throw new Error(...)\<close> of the two routers, the validation error of a
  Mongoose \<^verbatim>\<open>save()\<close> (the name of the model and the detail text that follows
  \<^verbatim>\<open>validation failed: \<close>), the server's answer to a transaction on a deployment
  without transaction support, and the \<^verbatim>\<open>TypeError\<close> of reading
  \<^verbatim>\<open>items.length\<close> when \<^verbatim>\<open>items\<close> is no array.
\<close>

datatype error =
    ProductIdRequired nat
  | QuantityNotPositive nat
  | ProductNotFound string
  | InsufficientStock string
  | ValidationFailed string string
  | TransactionRejected
  | TypeError

definition transactionMarker :: string where
  "transactionMarker = ''Transaction numbers are only allowed''"

fun message :: "error \<Rightarrow> string" where
  "message (ProductIdRequired i) = ''items['' @ showNat i @ ''].productId required''"
| "message (QuantityNotPositive i) = ''items['' @ showNat i @ ''].quantity must be greater than 0''"
| "message (ProductNotFound pid) = ''Product not found for id '' @ pid"
| "message (InsufficientStock n) = ''Insufficient stock for product '' @ n"
| "message (ValidationFailed m detail) = m @ '' validation failed: '' @ detail"
| "message TransactionRejected =
     ''Transaction numbers are only allowed on a replica set member or mongos''"
| "message TypeError =
     ''Cannot read properties of undefined (reading '' @ [CHR 0x27] @ ''length''
       @ [CHR 0x27] @ '')''"

section \<open>Requests\<close>

record item =
  it_productId :: "string option"
  it_quantity :: "int option"
  it_price :: "rat option"
  it_pricePerQuantity :: "rat option"

text \<open>
  A date field of the sale body: absent (\<^verbatim>\<open>null\<close> or \<^verbatim>\<open>undefined\<close>),
  present but falsy, present with a value \<^verbatim>\<open>new Date\<close> cannot read, or present
  with a readable date (as a timestamp).
\<close>

datatype dateField = DateAbsent | DateFalsy | DateInvalid | DateValid int

record saleBody =
  sb_billId :: "string option"
  sb_customerName :: "string option"
  sb_subtotal :: "rat option"
  sb_tax :: "rat option"
  sb_total :: "rat option"
  sb_items :: "item list option"
  sb_invoiceDate :: dateField
  sb_date :: dateField

record purchaseBody =
  pb_billId :: "string option"
  pb_supplierName :: "string option"
  pb_subtotal :: "rat option"
  pb_tax :: "rat option"
  pb_total :: "rat option"
  pb_items :: "item list option"

section \<open>The environment\<close>

text \<open>
  What the routers take from their surroundings: the two environment variables, what
  \<^verbatim>\<open>canUseTransactions\<close> probes (\<^verbatim>\<open>client?.topology?.description?.type\<close>, the
  \<^verbatim>\<open>replicaSet\<close> option, the connection string), whether the server accepts
  transactions at all (it is a replica set member or a mongos), and the behaviour of the
  platform that is taken as given: \<^verbatim>\<open>toUpperCase\<close> and \<^verbatim>\<open>toLowerCase\<close> on a
  string with characters outside ASCII (the Unicode case mappings), and the detail text
  Mongoose puts into a validation error for a model and its failing paths.
\<close>

record env =
  NODE_ENV :: "string option"
  MONGO_TRANSACTIONS :: "string option"
  topologyType :: "string option"
  replicaSetName :: "string option"
  connectionString :: "string option"
  transactionsSupported :: bool
  unicodeUpper :: "string \<Rightarrow> string"
  unicodeLower :: "string \<Rightarrow> string"
  validationDetail :: "string \<Rightarrow> string list \<Rightarrow> string"

definition toUpperCase :: "env \<Rightarrow> string \<Rightarrow> string" where
  "toUpperCase ev s = (if isAscii s then map upperChar s else unicodeUpper ev s)"

definition toLowerCase :: "env \<Rightarrow> string \<Rightarrow> string" where
  "toLowerCase ev s = (if isAscii s then map lowerChar s else unicodeLower ev s)"

section \<open>The product repository\<close>

text \<open>
  \<^verbatim>\<open>Product.findOne({$or: [{productId: code}, {sku: code}]})\<close> is the first document
  in natural order that matches. \<^verbatim>\<open>Product.findById(id)\<close> is called with a string;
  the \<^verbatim>\<open>Mixed\<close> path does not cast it, so it matches a document whose
  \<^verbatim>\<open>_id\<close> is that string and never one whose \<^verbatim>\<open>_id\<close> is an ObjectId.
\<close>

definition findByCode :: "string \<Rightarrow> product list \<Rightarrow> product option" where
  "findByCode code ps = find (\<lambda>p. p_productId p = code \<or> p_sku p = code) ps"

definition findById :: "string \<Rightarrow> product list \<Rightarrow> product option" where
  "findById i ps = find (\<lambda>p. p_id p = StringId i) ps"

definition loadProductByIdentifier ::
    "env \<Rightarrow> string option \<Rightarrow> product list \<Rightarrow> product option" where
  "loadProductByIdentifier ev identifier ps =
     (if \<not> truthy identifier then None
      else let trimmed = normalizeString identifier;
               normalizedCode = toUpperCase ev trimmed
           in case findByCode normalizedCode ps of
                Some p \<Rightarrow> Some p
              | None \<Rightarrow> if isObjectIdHex trimmed then findById trimmed ps else None)"

text \<open>
  \<^verbatim>\<open>product.save()\<close> validates the document against the schema (the required
  strings must be non-empty) and writes its modified paths to the stored document with
  the same \<^verbatim>\<open>_id\<close>. The document was loaded from that stored document, so the
  stored document becomes the document saved.
\<close>

definition validateProduct :: "product \<Rightarrow> bool" where
  "validateProduct p = (p_name p \<noteq> [] \<and> p_sku p \<noteq> [] \<and> p_productId p \<noteq> [])"

definition productFailures :: "product \<Rightarrow> string list" where
  "productFailures p =
     (if p_name p = [] then [''name''] else []) @
     (if p_sku p = [] then [''sku''] else []) @
     (if p_productId p = [] then [''productId''] else [])"

fun updateOne :: "objId \<Rightarrow> (product \<Rightarrow> product) \<Rightarrow> product list \<Rightarrow> product list" where
  "updateOne i f [] = []"
| "updateOne i f (p # ps) = (if p_id p = i then f p # ps else p # updateOne i f ps)"

definition saveProduct :: "env \<Rightarrow> product \<Rightarrow> product list \<Rightarrow> error + product list" where
  "saveProduct ev doc ps =
     (if \<not> validateProduct doc
      then Inl (ValidationFailed ''Product''
                  (validationDetail ev ''Product'' (productFailures doc)))
      else Inr (updateOne (p_id doc) (\<lambda>stored. doc) ps))"

section \<open>Sales: \<^verbatim>\<open>persistSale\<close>\<close>

definition templateString :: "string option \<Rightarrow> string" where
  "templateString v = (case v of None \<Rightarrow> ''undefined'' | Some s \<Rightarrow> s)"

text \<open>
  The body of the \<^verbatim>\<open>for\<close> loop of \<^verbatim>\<open>persistSale\<close>
  (\<^verbatim>\<open>sales.js\<close>, lines 49 to 92) for the item at index
  \<open>i\<close>, on the product collection \<open>ps\<close>: an error, or the collection after
  \<^verbatim>\<open>product.save()\<close>, the document pushed to \<^verbatim>\<open>updatedProducts\<close> and the
  line pushed to \<^verbatim>\<open>normalizedItems\<close>.
\<close>

definition saleStep ::
    "env \<Rightarrow> nat \<Rightarrow> item \<Rightarrow> product list
     \<Rightarrow> error + (product list \<times> product \<times> saleItem)" where
  "saleStep ev i it ps =
     (let productId = it_productId it;
          quantityToDeduct = parseInteger (it_quantity it) 0;
          price = parseNumber (it_price it) 0;
          pricePerQuantity = parseNumber (it_pricePerQuantity it) 0
      in if \<not> truthy productId then Inl (ProductIdRequired i)
         else if quantityToDeduct \<le> 0 then Inl (QuantityNotPositive i)
         else case loadProductByIdentifier ev productId ps of
                None \<Rightarrow> Inl (ProductNotFound (templateString productId))
              | Some product \<Rightarrow>
                  let currentQuantity =
                        parseInteger (Some (numberParseInt (p_quantity product))) 0
                  in if currentQuantity < quantityToDeduct
                     then Inl (InsufficientStock (p_name product))
                     else
                       let effectivePrice =
                             (if price > 0 then price
                              else parseNumber (Some (p_price product)) 0);
                           product' = product
                             \<lparr>p_quantity := roundToDouble (currentQuantity - quantityToDeduct),
                              p_price := (if effectivePrice > 0 then effectivePrice
                                          else parseNumber (Some (p_price product)) 0)\<rparr>
                       in (case saveProduct ev product' ps of
                            Inl e \<Rightarrow> Inl e
                          | Inr ps' \<Rightarrow>
                              Inr (ps', product',
                                \<lparr>si_productId = idString (p_id product'),
                                 si_productName = p_name product',
                                 si_quantity = quantityToDeduct,
                                 si_price = effectivePrice,
                                 si_pricePerQuantity =
                                   (if pricePerQuantity > 0 then pricePerQuantity
                                    else effectivePrice * of_int quantityToDeduct),
                                 si_total =
                                   (if pricePerQuantity > 0 then pricePerQuantity
                                    else effectivePrice) * of_int quantityToDeduct,
                                 si_size = normalizeString (p_size product'),
                                 si_gsm = normalizeString (p_gsm product')\<rparr>)))"

text \<open>
  The loop over \<^verbatim>\<open>items\<close> from index \<open>i\<close>: the collection as the loop leaves it,
  and either the first error thrown or the two arrays built.
\<close>

fun saleLoop :: "env \<Rightarrow> nat \<Rightarrow> item list \<Rightarrow> product list
    \<Rightarrow> product list \<times> (error + (product list \<times> saleItem list))" where
  "saleLoop ev i [] ps = (ps, Inr ([], []))"
| "saleLoop ev i (it # its) ps =
     (case saleStep ev i it ps of
        Inl e \<Rightarrow> (ps, Inl e)
      | Inr (ps', product, line) \<Rightarrow>
          (case saleLoop ev (Suc i) its ps' of
             (ps'', Inl e) \<Rightarrow> (ps'', Inl e)
           | (ps'', Inr (updatedProducts, normalizedItems)) \<Rightarrow>
               (ps'', Inr (product # updatedProducts, line # normalizedItems))))"

text \<open>
  \<^verbatim>\<open>sale.save()\<close> validates the record against \<^verbatim>\<open>saleSchema\<close>: the required
  strings of the record and of every line must be non-empty (the required numbers are
  always numbers here).
\<close>

definition validateSale :: "sale \<Rightarrow> bool" where
  "validateSale s =
     (s_billId s \<noteq> [] \<and>
      list_all (\<lambda>l. si_productId l \<noteq> [] \<and> si_productName l \<noteq> []) (s_items s))"

text \<open>The paths of a Sale record that fail validation, for the error text.\<close>

definition saleFailures :: "sale \<Rightarrow> string list" where
  "saleFailures s =
     (if s_billId s = [] then [''billId''] else []) @
     concat (map (\<lambda>(i, l).
               (if si_productId l = [] then [''items.'' @ showNat i @ ''.productId''] else []) @
               (if si_productName l = [] then [''items.'' @ showNat i @ ''.productName''] else []))
             (enumerate 0 (s_items s)))"

definition providedDate :: "saleBody \<Rightarrow> dateField" where
  "providedDate b = (if sb_date b = DateAbsent then sb_invoiceDate b else sb_date b)"

definition buildSale :: "saleBody \<Rightarrow> saleItem list \<Rightarrow> sale" where
  "buildSale b normalizedItems =
     (let sale = \<lparr>s_billId = normalizeString (sb_billId b),
                  s_customerName = normalizeString (sb_customerName b),
                  s_subtotal = parseNumber (sb_subtotal b) 0,
                  s_tax = parseNumber (sb_tax b) 0,
                  s_total = parseNumber (sb_total b) 0,
                  s_items = normalizedItems,
                  s_createdAt = None\<rparr>
      in case providedDate b of
           DateValid t \<Rightarrow> sale\<lparr>s_createdAt := Some t\<rparr>
         | _ \<Rightarrow> sale)"

definition persistSale ::
    "env \<Rightarrow> saleBody \<Rightarrow> db \<Rightarrow> db \<times> (error + (sale \<times> product list))" where
  "persistSale ev b d =
     (case sb_items b of
        None \<Rightarrow> (d, Inl TypeError)
      | Some items \<Rightarrow>
          (case saleLoop ev 0 items (inventory d) of
             (ps, Inl e) \<Rightarrow> (d\<lparr>inventory := ps\<rparr>, Inl e)
           | (ps, Inr (updatedProducts, normalizedItems)) \<Rightarrow>
               let sale = buildSale b normalizedItems
               in if \<not> validateSale sale
                  then (d\<lparr>inventory := ps\<rparr>,
                        Inl (ValidationFailed ''Sale''
                               (validationDetail ev ''Sale'' (saleFailures sale))))
                  else (d\<lparr>inventory := ps, sales := sales d @ [sale]\<rparr>,
                        Inr (sale, updatedProducts))))"

section \<open>The dashboard metrics\<close>

text \<open>\<^verbatim>\<open>toNumber\<close>: \<^verbatim>\<open>Number.parseFloat\<close>, with 0 for \<^verbatim>\<open>NaN\<close>.\<close>

definition toNumber :: "rat option \<Rightarrow> rat" where
  "toNumber v = (case v of None \<Rightarrow> 0 | Some x \<Rightarrow> x)"

text \<open>
  \<^verbatim>\<open>buildInventorySnapshot\<close>: the two \<^verbatim>\<open>reduce\<close> calls over
  \<^verbatim>\<open>Product.find()\<close>; the result is
  \<open>(inventoryValue, lowStock, outOfStock)\<close>.
\<close>

definition countStock :: "int \<times> int \<Rightarrow> product \<Rightarrow> int \<times> int" where
  "countStock acc product =
     (let quantity = toNumber (Some (of_int (p_quantity product)));
          reorderPoint = toNumber (Some (of_int (p_reorderPoint product)))
      in if quantity \<le> 0 then (fst acc, snd acc + 1)
         else if quantity \<le> reorderPoint then (fst acc + 1, snd acc)
         else acc)"

definition buildInventorySnapshot :: "product list \<Rightarrow> rat \<times> int \<times> int" where
  "buildInventorySnapshot ps =
     (let inventoryValue =
            foldl (\<lambda>sum product. sum + toNumber (Some (p_price product))
                                       * toNumber (Some (of_int (p_quantity product)))) 0 ps;
          counts = foldl countStock (0, 0) ps
      in (inventoryValue, fst counts, snd counts))"

text \<open>
  The aggregation \<^verbatim>\<open>$group: {_id: null, total: {$sum: "$total"}, count: {$sum: 1}}\<close>:
  no group at all on an empty collection.
\<close>

definition aggregateGroup :: "rat list \<Rightarrow> (rat \<times> int) option" where
  "aggregateGroup totals =
     (if totals = [] then None else Some (sum_list totals, int (length totals)))"

definition buildSalesSnapshot :: "sale list \<Rightarrow> rat \<times> int" where
  "buildSalesSnapshot ss =
     (case aggregateGroup (map s_total ss) of None \<Rightarrow> (0, 0) | Some (t, c) \<Rightarrow> (t, c))"

definition buildPurchasesSnapshot :: "purchase list \<Rightarrow> rat \<times> int" where
  "buildPurchasesSnapshot us =
     (case aggregateGroup (map pu_total us) of None \<Rightarrow> (0, 0) | Some (t, c) \<Rightarrow> (t, c))"

text \<open>
  \<^verbatim>\<open>recalculateDashboardStats\<close>: the snapshot returned and the database with the
  singleton overwritten (\<^verbatim>\<open>findByIdAndUpdate\<close> with \<^verbatim>\<open>upsert\<close>).
\<close>

definition recalculateDashboardStats :: "db \<Rightarrow> dashboardStat \<times> db" where
  "recalculateDashboardStats d =
     (let inventorySnapshot = buildInventorySnapshot (inventory d);
          salesSnapshot = buildSalesSnapshot (sales d);
          purchaseSnapshot = buildPurchasesSnapshot (purchases d);
          orders = max (snd salesSnapshot) (snd purchaseSnapshot);
          stats = \<lparr>d_totalSales = toNumber (Some (fst salesSnapshot)),
                   d_inventoryValue = toNumber (Some (fst inventorySnapshot)),
                   d_orders = orders,
                   d_lowStock = fst (snd inventorySnapshot),
                   d_outOfStock = snd (snd inventorySnapshot)\<rparr>
      in (stats, d\<lparr>dashboard_stats := Some stats\<rparr>))"

definition truncRat :: "rat \<Rightarrow> int" where
  "truncRat x = (if 0 \<le> x then \<lfloor>x\<rfloor> else \<lceil>x\<rceil>)"

definition defaultStats :: dashboardStat where
  "defaultStats = \<lparr>d_totalSales = 0, d_inventoryValue = 0, d_orders = 0,
                    d_lowStock = 0, d_outOfStock = 0\<rparr>"

definition incrementDashboardCounters :: "rat option \<Rightarrow> rat option \<Rightarrow> db \<Rightarrow> dashboardStat option \<times> db" where
  "incrementDashboardCounters totalSalesDelta ordersDelta d =
     (let normalizedSales = toNumber totalSalesDelta;
          normalizedOrders = truncRat (toNumber ordersDelta)
      in if normalizedSales = 0 \<and> normalizedOrders = 0 then (dashboard_stats d, d)
         else
           let existing = (case dashboard_stats d of None \<Rightarrow> defaultStats | Some st \<Rightarrow> st);
               stats = existing\<lparr>d_totalSales := d_totalSales existing + normalizedSales,
                                d_orders := d_orders existing + normalizedOrders\<rparr>
           in (Some stats, d\<lparr>dashboard_stats := Some stats\<rparr>))"

section \<open>The sales router: \<^verbatim>\<open>POST /\<close>\<close>

datatype payload =
    ErrorBody string
  | SaleBody sale "product list" "dashboardStat option"
  | PurchaseBody purchase "product list" "dashboardStat option"

datatype response = Response (status: nat) (body: payload)

definition errorMessage :: "error \<Rightarrow> string" where
  "errorMessage e = (if message e = [] then ''Server error'' else message e)"

definition sales_post :: "env \<Rightarrow> saleBody \<Rightarrow> db \<Rightarrow> response \<times> db" where
  "sales_post ev b d =
     (if \<not> truthy (sb_billId b) then (Response 400 (ErrorBody ''billId required''), d)
      else if (case sb_items b of None \<Rightarrow> True | Some items \<Rightarrow> items = [])
      then (Response 400 (ErrorBody ''items array required''), d)
      else case persistSale ev b d of
             (d1, Inl err) \<Rightarrow> (Response 500 (ErrorBody (errorMessage err)), d1)
           | (d1, Inr (sale, updatedProducts)) \<Rightarrow>
               if NODE_ENV ev \<noteq> Some ''test''
               then let d2 = snd (incrementDashboardCounters (Some (s_total sale)) (Some 1) d1);
                        (dashboardStats, d3) = recalculateDashboardStats d2
                    in (Response 201 (SaleBody sale updatedProducts (Some dashboardStats)), d3)
               else (Response 201 (SaleBody sale updatedProducts None), d1))"

section \<open>Purchases: \<^verbatim>\<open>persistPurchase\<close> and the consistency strategy\<close>

text \<open>
  \<^verbatim>\<open>canUseTransactions\<close>: the three probes in order. (Its \<^verbatim>\<open>catch\<close> branch
  returns \<^verbatim>\<open>false\<close>, as the probes do when nothing is known.)
\<close>

definition canUseTransactions :: "env \<Rightarrow> bool" where
  "canUseTransactions ev =
     (if truthy (topologyType ev) \<and> topologyType ev \<noteq> Some ''Single'' then True
      else if truthy (replicaSetName ev) then True
      else (case connectionString ev of
              Some url \<Rightarrow> includes_str url ''replicaSet=''
            | None \<Rightarrow> False))"

text \<open>
  A session is modelled by a flag: \<open>True\<close> is a session with an open transaction. A
  server without transaction support answers the first operation sent in a transaction
  with the error whose message starts \<^verbatim>\<open>Transaction numbers are only allowed\<close>.
\<close>

definition purchases_loadProductByIdentifier ::
    "env \<Rightarrow> bool \<Rightarrow> string option \<Rightarrow> product list \<Rightarrow> error + product option" where
  "purchases_loadProductByIdentifier ev session identifier ps =
     (if \<not> truthy identifier then Inr None
      else let trimmed = normalizeString identifier;
               normalizedCode = toUpperCase ev trimmed
           in if session \<and> \<not> transactionsSupported ev then Inl TransactionRejected
              else case findByCode normalizedCode ps of
                     Some p \<Rightarrow> Inr (Some p)
                   | None \<Rightarrow> if isObjectIdHex trimmed then Inr (findById trimmed ps)
                             else Inr None)"

definition saveProductIn :: "env \<Rightarrow> bool \<Rightarrow> product \<Rightarrow> product list \<Rightarrow> error + product list" where
  "saveProductIn ev session doc ps =
     (if \<not> validateProduct doc
      then Inl (ValidationFailed ''Product''
                  (validationDetail ev ''Product'' (productFailures doc)))
      else if session \<and> \<not> transactionsSupported ev then Inl TransactionRejected
      else saveProduct ev doc ps)"

definition purchaseStep ::
    "env \<Rightarrow> bool \<Rightarrow> nat \<Rightarrow> item \<Rightarrow> product list
     \<Rightarrow> error + (product list \<times> product \<times> purchaseItem)" where
  "purchaseStep ev session i it ps =
     (let productId = it_productId it;
          quantityToAdd = parseInteger (it_quantity it) 0;
          price = parseNumber (it_price it) 0
      in if \<not> truthy productId then Inl (ProductIdRequired i)
         else if quantityToAdd \<le> 0 then Inl (QuantityNotPositive i)
         else (case purchases_loadProductByIdentifier ev session productId ps of
                 Inl e \<Rightarrow> Inl e
               | Inr None \<Rightarrow> Inl (ProductNotFound (templateString productId))
               | Inr (Some product) \<Rightarrow>
                   let baseQuantity =
                         parseInteger (Some (numberParseInt (p_quantity product))) 0;
                       effectivePrice =
                         (if price > 0 then price
                          else parseNumber (Some (p_price product)) 0);
                       product' = product
                         \<lparr>p_quantity := roundToDouble (baseQuantity + quantityToAdd),
                          p_price := effectivePrice\<rparr>
                   in (case saveProductIn ev session product' ps of
                         Inl e \<Rightarrow> Inl e
                       | Inr ps' \<Rightarrow>
                           Inr (ps', product',
                             \<lparr>pi_productId = idString (p_id product'),
                              pi_productName = p_name product',
                              pi_quantity = quantityToAdd,
                              pi_price = effectivePrice,
                              pi_total = effectivePrice * of_int quantityToAdd,
                              pi_size = normalizeString (p_size product'),
                              pi_gsm = normalizeString (p_gsm product')\<rparr>))))"

fun purchaseLoop :: "env \<Rightarrow> bool \<Rightarrow> nat \<Rightarrow> item list \<Rightarrow> product list
    \<Rightarrow> product list \<times> (error + (product list \<times> purchaseItem list))" where
  "purchaseLoop ev session i [] ps = (ps, Inr ([], []))"
| "purchaseLoop ev session i (it # its) ps =
     (case purchaseStep ev session i it ps of
        Inl e \<Rightarrow> (ps, Inl e)
      | Inr (ps', product, line) \<Rightarrow>
          (case purchaseLoop ev session (Suc i) its ps' of
             (ps'', Inl e) \<Rightarrow> (ps'', Inl e)
           | (ps'', Inr (updatedProducts, normalizedItems)) \<Rightarrow>
               (ps'', Inr (product # updatedProducts, line # normalizedItems))))"

definition validatePurchase :: "purchase \<Rightarrow> bool" where
  "validatePurchase u =
     (pu_billId u \<noteq> [] \<and>
      list_all (\<lambda>l. pi_productId l \<noteq> [] \<and> pi_productName l \<noteq> []) (pu_items u))"

definition purchaseFailures :: "purchase \<Rightarrow> string list" where
  "purchaseFailures u =
     (if pu_billId u = [] then [''billId''] else []) @
     concat (map (\<lambda>(i, l).
               (if pi_productId l = [] then [''items.'' @ showNat i @ ''.productId''] else []) @
               (if pi_productName l = [] then [''items.'' @ showNat i @ ''.productName''] else []))
             (enumerate 0 (pu_items u)))"

definition buildPurchase :: "purchaseBody \<Rightarrow> purchaseItem list \<Rightarrow> purchase" where
  "buildPurchase b normalizedItems =
     \<lparr>pu_billId = normalizeString (pb_billId b),
      pu_supplierName =
        (if normalizeString (pb_supplierName b) = [] then ''Unknown Supplier''
         else normalizeString (pb_supplierName b)),
      pu_subtotal = parseNumber (pb_subtotal b) 0,
      pu_tax = parseNumber (pb_tax b) 0,
      pu_total = parseNumber (pb_total b) 0,
      pu_items = normalizedItems\<rparr>"

definition persistPurchase ::
    "env \<Rightarrow> bool \<Rightarrow> purchaseBody \<Rightarrow> db \<Rightarrow> db \<times> (error + (purchase \<times> product list))" where
  "persistPurchase ev session b d =
     (case pb_items b of
        None \<Rightarrow> (d, Inl TypeError)
      | Some items \<Rightarrow>
          (case purchaseLoop ev session 0 items (inventory d) of
             (ps, Inl e) \<Rightarrow> (d\<lparr>inventory := ps\<rparr>, Inl e)
           | (ps, Inr (updatedProducts, normalizedItems)) \<Rightarrow>
               let purchase = buildPurchase b normalizedItems
               in if \<not> validatePurchase purchase
                  then (d\<lparr>inventory := ps\<rparr>,
                        Inl (ValidationFailed ''Purchase''
                               (validationDetail ev ''Purchase'' (purchaseFailures purchase))))
                  else if session \<and> \<not> transactionsSupported ev
                  then (d\<lparr>inventory := ps\<rparr>, Inl TransactionRejected)
                  else (d\<lparr>inventory := ps, purchases := purchases d @ [purchase]\<rparr>,
                        Inr (purchase, updatedProducts))))"

section \<open>The purchases router: \<^verbatim>\<open>POST /\<close>\<close>

text \<open>
  The success response, built the same way after the first attempt and after the
  fallback attempt: the dashboard is recalculated unless \<^verbatim>\<open>NODE_ENV\<close> is
  \<^verbatim>\<open>test\<close>.
\<close>

definition purchaseResponse :: "env \<Rightarrow> purchase \<times> product list \<Rightarrow> db \<Rightarrow> response \<times> db" where
  "purchaseResponse ev result d =
     (if NODE_ENV ev \<noteq> Some ''test''
      then let (dashboardStats, d') = recalculateDashboardStats d
           in (Response 201 (PurchaseBody (fst result) (snd result) (Some dashboardStats)), d')
      else (Response 201 (PurchaseBody (fst result) (snd result) None), d))"

definition transactionsRequested :: "env \<Rightarrow> bool" where
  "transactionsRequested ev =
     (let transactionsToggle =
            toLowerCase ev (case MONGO_TRANSACTIONS ev of None \<Rightarrow> ''false'' | Some v \<Rightarrow> v)
      in transactionsToggle = ''true'' \<or> transactionsToggle = ''1'')"

text \<open>
  The handler. With a session, \<^verbatim>\<open>abortTransaction\<close> discards every write of the
  failed attempt, so the database is the one the request found; without a session the
  writes made before the error stay.
\<close>

definition purchases_post :: "env \<Rightarrow> purchaseBody \<Rightarrow> db \<Rightarrow> response \<times> db" where
  "purchases_post ev b d =
     (if \<not> truthy (pb_billId b) then (Response 400 (ErrorBody ''billId required''), d)
      else if (case pb_items b of None \<Rightarrow> True | Some items \<Rightarrow> items = [])
      then (Response 400 (ErrorBody ''items array required''), d)
      else
        let shouldUseTransactions = (transactionsRequested ev \<and> canUseTransactions ev);
            session = shouldUseTransactions
        in (case persistPurchase ev session b d of
              (d1, Inr result) \<Rightarrow> purchaseResponse ev result d1
            | (d1, Inl err) \<Rightarrow>
                let d0 = (if session then d else d1)
                in if shouldUseTransactions \<and> includes_str (message err) transactionMarker
                   then (case persistPurchase ev False b d0 of
                           (d2, Inr fallbackResult) \<Rightarrow> purchaseResponse ev fallbackResult d2
                         | (d2, Inl fallbackErr) \<Rightarrow>
                             (Response 500 (ErrorBody (errorMessage fallbackErr)), d2))
                   else (Response 500 (ErrorBody (errorMessage err)), d0)))"

section \<open>Reference definitions of the dashboard snapshot\<close>

text \<open>
  The snapshot as the specification words it, computed from the full collections: sums
  and counts, not the accumulating loops of the code.
\<close>

definition inventoryValue_spec :: "product list \<Rightarrow> rat" where
  "inventoryValue_spec ps = (\<Sum>p\<leftarrow>ps. p_price p * of_int (p_quantity p))"

definition lowStock_spec :: "product list \<Rightarrow> int" where
  "lowStock_spec ps =
     int (length (filter (\<lambda>p. 0 < p_quantity p \<and> p_quantity p \<le> p_reorderPoint p) ps))"

definition outOfStock_spec :: "product list \<Rightarrow> int" where
  "outOfStock_spec ps = int (length (filter (\<lambda>p. p_quantity p \<le> 0) ps))"

definition totalSales_spec :: "sale list \<Rightarrow> rat" where
  "totalSales_spec ss = (\<Sum>s\<leftarrow>ss. s_total s)"

definition orders_spec :: "sale list \<Rightarrow> purchase list \<Rightarrow> int" where
  "orders_spec ss us = max (int (length ss)) (int (length us))"

definition snapshot_spec :: "db \<Rightarrow> dashboardStat" where
  "snapshot_spec d =
     \<lparr>d_totalSales = totalSales_spec (sales d),
      d_inventoryValue = inventoryValue_spec (inventory d),
      d_orders = orders_spec (sales d) (purchases d),
      d_lowStock = lowStock_spec (inventory d),
      d_outOfStock = outOfStock_spec (inventory d)\<rparr>"

section \<open>Relations between the inventory before and after a request\<close>

text \<open>
  \<open>sameFrame p p'\<close>: the stored document \<open>p'\<close> has every field of \<open>p\<close> other than
  \<^verbatim>\<open>quantity\<close> and \<^verbatim>\<open>price\<close> unchanged. \<open>keepsStock p p'\<close>: it is the same
  document, and its quantity is not negative if it was not before.
\<close>

definition sameFrame :: "product \<Rightarrow> product \<Rightarrow> bool" where
  "sameFrame p p' =
     (p_id p' = p_id p \<and> p_name p' = p_name p \<and> p_sku p' = p_sku p \<and>
      p_productId p' = p_productId p \<and> p_reorderPoint p' = p_reorderPoint p \<and>
      p_size p' = p_size p \<and> p_gsm p' = p_gsm p \<and> p_image p' = p_image p)"

definition keepsStock :: "product \<Rightarrow> product \<Rightarrow> bool" where
  "keepsStock p p' = (p_id p' = p_id p \<and> (0 \<le> p_quantity p \<longrightarrow> 0 \<le> p_quantity p'))"

text \<open>
  \<open>schemaValid ps\<close>: every stored product has an \<^verbatim>\<open>_id\<close> and satisfies the
  required fields of \<^verbatim>\<open>productSchema\<close>, as documents saved through the model do.
\<close>

definition schemaValid :: "product list \<Rightarrow> bool" where
  "schemaValid ps = list_all (\<lambda>p. idString (p_id p) \<noteq> [] \<and> validateProduct p) ps"

section \<open>Requests that fail validation\<close>


section \<open>Valid purchase batches\<close>



definition validPurchaseItem :: "env \<Rightarrow> product list \<Rightarrow> item \<Rightarrow> bool" where
  "validPurchaseItem ev ps it =
     (truthy (it_productId it) \<and> 0 < parseInteger (it_quantity it) 0 \<and>
      loadProductByIdentifier ev (it_productId it) ps \<noteq> None)"

definition validPurchaseBatch :: "env \<Rightarrow> product list \<Rightarrow> purchaseBody \<Rightarrow> bool" where
  "validPurchaseBatch ev ps b =
     (normalizeString (pb_billId b) \<noteq> [] \<and>
      (case pb_items b of
         None \<Rightarrow> False
       | Some items \<Rightarrow> items \<noteq> [] \<and> list_all (validPurchaseItem ev ps) items))"

section \<open>Example data\<close>

text \<open>
  The product of the specification's scenario (\<^verbatim>\<open>SKU-1\<close>, price 10, quantity 5, reorder
  point 2) in an otherwise empty database, requests on it, and a deployment that asks for
  transactions on a server that has none.
\<close>

definition exampleProduct :: product where
  "exampleProduct =
     \<lparr>p_id = ObjectId ''65f1c0de0000000000000001'', p_name = ''Tarpaulin'', p_sku = ''SKU-1'', p_productId = ''SKU-1'',
      p_price = 10, p_quantity = 5, p_reorderPoint = 2,
      p_size = Some ''12x10'', p_gsm = Some ''120'', p_image = None\<rparr>"

definition exampleDb :: db where
  "exampleDb = \<lparr>inventory = [exampleProduct], sales = [], purchases = [],
                 dashboard_stats = None\<rparr>"

definition exampleItem :: "int \<Rightarrow> item" where
  "exampleItem n = \<lparr>it_productId = Some ''sku-1'', it_quantity = Some n,
                     it_price = None, it_pricePerQuantity = None\<rparr>"

definition exampleSale :: "item list \<Rightarrow> saleBody" where
  "exampleSale items =
     \<lparr>sb_billId = Some ''BILL-1'', sb_customerName = Some ''Asha'', sb_subtotal = Some 30,
      sb_tax = Some 0, sb_total = Some 30, sb_items = Some items,
      sb_invoiceDate = DateAbsent, sb_date = DateAbsent\<rparr>"

definition examplePurchase :: "item list \<Rightarrow> purchaseBody" where
  "examplePurchase items =
     \<lparr>pb_billId = Some ''BILL-2'', pb_supplierName = None, pb_subtotal = Some 70,
      pb_tax = Some 0, pb_total = Some 70, pb_items = Some items\<rparr>"

text \<open>
  The detail text of a validation error whose failing paths are all required paths:
  \<^verbatim>\<open>path: Path `name` is required.\<close> for each, joined by commas.
\<close>

definition lastSegment :: "string \<Rightarrow> string" where
  "lastSegment p = rev (takeWhile (\<lambda>c. c \<noteq> CHR ''.'') (rev p))"

fun joinWith :: "string \<Rightarrow> string list \<Rightarrow> string" where
  "joinWith sep [] = []"
| "joinWith sep [x] = x"
| "joinWith sep (x # y # ys) = x @ sep @ joinWith sep (y # ys)"

definition requiredDetail :: "string \<Rightarrow> string list \<Rightarrow> string" where
  "requiredDetail model paths =
     joinWith '', ''
       (map (\<lambda>p. p @ '': Path '' @ [CHR 0x60] @ lastSegment p @ [CHR 0x60] @ '' is required.'')
          paths)"

definition exampleEnv :: env where
  "exampleEnv =
     \<lparr>NODE_ENV = Some ''production'', MONGO_TRANSACTIONS = Some ''true'',
      topologyType = Some ''Single'', replicaSetName = None,
      connectionString = Some ''mongodb://db/shop?replicaSet=rs0'',
      transactionsSupported = False,
      unicodeUpper = (\<lambda>s. s), unicodeLower = (\<lambda>s. s),
      validationDetail = requiredDetail\<rparr>"

text \<open>
  An item with a supplied price and a supplied \<^verbatim>\<open>pricePerQuantity\<close>, and the Sale
  record that a sale of it alone persists.
\<close>

definition pricedItem :: item where
  "pricedItem = \<lparr>it_productId = Some ''SKU-1'', it_quantity = Some 2,
                  it_price = Some 12, it_pricePerQuantity = Some 7\<rparr>"

definition pricedSale :: sale where
  "pricedSale =
     \<lparr>s_billId = ''BILL-1'', s_customerName = ''Asha'', s_subtotal = 30, s_tax = 0,
      s_total = 30,
      s_items = [\<lparr>si_productId = ''65f1c0de0000000000000001'', si_productName = ''Tarpaulin'', si_quantity = 2,
                  si_price = 12, si_pricePerQuantity = 7, si_total = 14,
                  si_size = ''12x10'', si_gsm = ''120''\<rparr>],
      s_createdAt = None\<rparr>"

text \<open>A second product, an item that buys it, and a database with both products.\<close>

definition otherProduct :: product where
  "otherProduct =
     \<lparr>p_id = ObjectId ''65f1c0de0000000000000002'', p_name = ''Rope'', p_sku = ''SKU-2'', p_productId = ''SKU-2'',
      p_price = 4, p_quantity = 1, p_reorderPoint = 10,
      p_size = None, p_gsm = None, p_image = None\<rparr>"

definition otherItem :: "int \<Rightarrow> item" where
  "otherItem n = \<lparr>it_productId = Some ''SKU-2'', it_quantity = Some n,
                   it_price = Some 6, it_pricePerQuantity = None\<rparr>"

definition twoProductDb :: db where
  "twoProductDb = \<lparr>inventory = [exampleProduct, otherProduct], sales = [], purchases = [],
                    dashboard_stats = None\<rparr>"

text \<open>
  The inventory after a purchase of 2 of the second product (at the supplied price 6) and
  4 of the first, and the Purchase record of that request.
\<close>

definition restockedInventory :: "product list" where
  "restockedInventory =
     [exampleProduct\<lparr>p_quantity := 9\<rparr>, otherProduct\<lparr>p_quantity := 3, p_price := 6\<rparr>]"

definition restockPurchase :: purchase where
  "restockPurchase =
     \<lparr>pu_billId = ''BILL-2'', pu_supplierName = ''Unknown Supplier'', pu_subtotal = 70,
      pu_tax = 0, pu_total = 70,
      pu_items =
        [\<lparr>pi_productId = ''65f1c0de0000000000000002'', pi_productName = ''Rope'',
          pi_quantity = 2, pi_price = 6, pi_total = 12, pi_size = [], pi_gsm = []\<rparr>,
         \<lparr>pi_productId = ''65f1c0de0000000000000001'', pi_productName = ''Tarpaulin'',
          pi_quantity = 4, pi_price = 10, pi_total = 40, pi_size = ''12x10'',
          pi_gsm = ''120''\<rparr>]\<rparr>"

section \<open>The dashboard aggregator\<close>

lemma foldl_value_sum:
  "foldl (\<lambda>sum product. sum + toNumber (Some (p_price product))
                               * toNumber (Some (of_int (p_quantity product)))) a ps
   = a + inventoryValue_spec ps"
  by (induction ps arbitrary: a) (simp_all add: inventoryValue_spec_def toNumber_def)

lemma foldl_countStock:
  "foldl countStock acc ps = (fst acc + lowStock_spec ps, snd acc + outOfStock_spec ps)"
proof (induction ps arbitrary: acc)
  case Nil
  then show ?case by (simp add: lowStock_spec_def outOfStock_spec_def)
next
  case (Cons p ps)
  show ?case
    by (simp add: Cons.IH)
       (simp add: countStock_def toNumber_def lowStock_spec_def outOfStock_spec_def)
qed

lemma buildInventorySnapshot_spec:
  "buildInventorySnapshot ps = (inventoryValue_spec ps, lowStock_spec ps, outOfStock_spec ps)"
  by (simp add: buildInventorySnapshot_def foldl_value_sum foldl_countStock)

lemma buildSalesSnapshot_spec:
  "buildSalesSnapshot ss = (totalSales_spec ss, int (length ss))"
  by (cases ss) (simp_all add: buildSalesSnapshot_def aggregateGroup_def totalSales_spec_def)

lemma buildPurchasesSnapshot_count:
  "snd (buildPurchasesSnapshot us) = int (length us)"
  by (cases us) (simp_all add: buildPurchasesSnapshot_def aggregateGroup_def)

lemma recalculate_eq:
  "recalculateDashboardStats d
   = (snapshot_spec d, d\<lparr>dashboard_stats := Some (snapshot_spec d)\<rparr>)"
  by (simp add: recalculateDashboardStats_def snapshot_spec_def buildInventorySnapshot_spec
      buildSalesSnapshot_spec buildPurchasesSnapshot_count orders_spec_def toNumber_def Let_def)


text \<open>
  Claim C8. Recomputing the dashboard is idempotent: a second run of
  \<^verbatim>\<open>recalculateDashboardStats\<close> right after the first returns the same snapshot and
  leaves the same database, whatever the products, sales and purchases are.
\<close>

theorem recalculate_idempotent:
  "recalculateDashboardStats (snd (recalculateDashboardStats d))
   = recalculateDashboardStats d"
  by (simp add: recalculateDashboardStats_def Let_def)

section \<open>Properties of the Number operations\<close>

lemma roundMagnitude_nonneg: "0 \<le> m \<Longrightarrow> 0 \<le> roundMagnitude m"
  by (simp add: roundMagnitude_def Let_def pos_imp_zdiv_nonneg_iff)

lemma roundToDouble_nonneg: "0 \<le> n \<Longrightarrow> 0 \<le> roundToDouble n"
  using roundMagnitude_nonneg[of "\<bar>n\<bar>"]
  by (simp add: roundToDouble_def zero_le_mult_iff sgn_if)


lemma firstDigit_range: "0 \<le> n \<Longrightarrow> 0 \<le> firstDigit n \<and> firstDigit n \<le> 9"
proof (induction n rule: firstDigit.induct)
  case (1 n)
  show ?case
  proof (cases "n < 10")
    case True
    then show ?thesis using "1.prems" by (simp add: firstDigit.simps[of n])
  next
    case False
    then have "0 \<le> n div 10" by simp
    with "1.IH" False show ?thesis by (simp add: firstDigit.simps[of n])
  qed
qed

lemma digitsOfLength_nonneg:
  assumes "digitsOfLength v k = Some s" and "0 \<le> v"
  shows "0 \<le> s"
proof -
  have "0 \<le> v div 10 ^ (decimalLength v - k)"
    using assms(2) by (simp add: pos_imp_zdiv_nonneg_iff)
  then show ?thesis
    using assms(1) by (auto simp: digitsOfLength_def Let_def split: if_splits)
qed

lemma shortestDigits_nonneg:
  assumes "0 \<le> v"
  shows "0 \<le> shortestDigits v"
proof (cases "List.map_filter (digitsOfLength v) [1..<18]")
  case Nil
  then show ?thesis using assms by (simp add: shortestDigits_def)
next
  case (Cons s ss)
  then have "s \<in> set (List.map_filter (digitsOfLength v) [1..<18])" by simp
  then obtain k where "digitsOfLength v k = Some s"
    by (auto simp: map_filter_def)
  then have "0 \<le> s" using assms by (rule digitsOfLength_nonneg)
  then show ?thesis using Cons by (simp add: shortestDigits_def)
qed

lemma numberParseInt_small: "\<bar>n\<bar> < 10 ^ 21 \<Longrightarrow> numberParseInt n = n"
  by (simp add: numberParseInt_def)


lemma numberParseInt_nonneg: "0 \<le> n \<Longrightarrow> 0 \<le> numberParseInt n"
  using firstDigit_range[OF shortestDigits_nonneg, of "\<bar>n\<bar>"]
  by (simp add: numberParseInt_def)

lemma numberParseInt_less:
  assumes "n < m" and "0 < m"
  shows "numberParseInt n < m"
proof (cases "\<bar>n\<bar> < 10 ^ 21")
  case True
  then show ?thesis using assms by (simp add: numberParseInt_def)
next
  case False
  have d: "0 \<le> firstDigit (shortestDigits \<bar>n\<bar>) \<and> firstDigit (shortestDigits \<bar>n\<bar>) \<le> 9"
    by (rule firstDigit_range[OF shortestDigits_nonneg]) simp
  show ?thesis
  proof (cases "0 \<le> n")
    case True
    then have "numberParseInt n \<le> 9" using False d by (simp add: numberParseInt_def)
    moreover have "9 < n" using False True by simp
    ultimately show ?thesis using assms by simp
  next
    case neg: False
    then have "numberParseInt n \<le> 0" using False d by (simp add: numberParseInt_def)
    then show ?thesis using assms by simp
  qed
qed

section \<open>The product repository and the two loops\<close>

lemma find_in_set: "find P xs = Some x \<Longrightarrow> x \<in> set xs"
  by (induction xs) (auto split: if_splits)

lemma loadProductByIdentifier_in_set:
  "loadProductByIdentifier ev x ps = Some p \<Longrightarrow> p \<in> set ps"
  by (auto simp: loadProductByIdentifier_def findByCode_def findById_def Let_def
      split: if_splits option.splits dest: find_in_set)

lemma updateOne_rel:
  assumes "distinct (map p_id ps)" and "p \<in> set ps" and "R p (f p)" and "\<And>q. R q q"
  shows "list_all2 R ps (updateOne (p_id p) f ps)"
  using assms(1,2)
proof (induction ps)
  case Nil
  then show ?case by simp
next
  case (Cons q qs)
  show ?case
  proof (cases "p_id q = p_id p")
    case True
    with Cons.prems have "q = p" by (auto simp: image_iff)
    with True assms(3,4) show ?thesis by (simp add: list_all2_refl)
  next
    case False
    with Cons show ?thesis using assms(4) by auto
  qed
qed

lemma saleStep_InrE:
  assumes "saleStep ev i it ps = Inr (ps', p', l)"
  obtains p where
    "truthy (it_productId it)"
    "0 < parseInteger (it_quantity it) 0"
    "loadProductByIdentifier ev (it_productId it) ps = Some p"
    "parseInteger (it_quantity it) 0 \<le> numberParseInt (p_quantity p)"
    "p' = p\<lparr>p_quantity :=
                roundToDouble (numberParseInt (p_quantity p) - parseInteger (it_quantity it) 0),
           p_price := (if parseNumber (it_price it) 0 > 0 then parseNumber (it_price it) 0
                       else p_price p)\<rparr>"
    "validateProduct p'"
    "ps' = updateOne (p_id p) (\<lambda>stored. p') ps"
  using assms
  by (auto simp: saleStep_def Let_def saveProduct_def parseInteger_def parseNumber_def
      split: if_splits option.splits sum.splits)

lemma sameFrame_refl: "sameFrame q q"
  by (simp add: sameFrame_def)

lemma keepsStock_refl: "keepsStock q q"
  by (simp add: keepsStock_def)

lemma sameFrame_trans: "sameFrame a b \<Longrightarrow> sameFrame b c \<Longrightarrow> sameFrame a c"
  by (simp add: sameFrame_def)

lemma keepsStock_trans: "keepsStock a b \<Longrightarrow> keepsStock b c \<Longrightarrow> keepsStock a c"
  by (simp add: keepsStock_def)

lemma keepsStock_ids: "list_all2 keepsStock ps ps' \<Longrightarrow> map p_id ps' = map p_id ps"
  by (induction rule: list_all2_induct) (simp_all add: keepsStock_def)

lemma sameFrame_ids: "list_all2 sameFrame ps ps' \<Longrightarrow> map p_id ps' = map p_id ps"
  by (induction rule: list_all2_induct) (simp_all add: sameFrame_def)

lemma saleStep_sameFrame:
  assumes "saleStep ev i it ps = Inr (ps', p', l)" and "distinct (map p_id ps)"
  shows "list_all2 sameFrame ps ps'"
proof -
  from assms(1) obtain p where
    load: "loadProductByIdentifier ev (it_productId it) ps = Some p"
    and p': "p' = p\<lparr>p_quantity :=
                roundToDouble (numberParseInt (p_quantity p) - parseInteger (it_quantity it) 0),
           p_price := (if parseNumber (it_price it) 0 > 0 then parseNumber (it_price it) 0
                       else p_price p)\<rparr>"
    and ps': "ps' = updateOne (p_id p) (\<lambda>stored. p') ps"
    by (elim saleStep_InrE)
  have "p \<in> set ps" using load by (rule loadProductByIdentifier_in_set)
  with assms(2) show ?thesis
    unfolding ps' by (rule updateOne_rel) (simp_all add: sameFrame_def p')
qed

lemma saleStep_keepsStock:
  assumes "saleStep ev i it ps = Inr (ps', p', l)" and "distinct (map p_id ps)"
  shows "list_all2 keepsStock ps ps'"
proof -
  from assms(1) obtain p where
    load: "loadProductByIdentifier ev (it_productId it) ps = Some p"
    and le: "parseInteger (it_quantity it) 0 \<le> numberParseInt (p_quantity p)"
    and p': "p' = p\<lparr>p_quantity :=
                roundToDouble (numberParseInt (p_quantity p) - parseInteger (it_quantity it) 0),
           p_price := (if parseNumber (it_price it) 0 > 0 then parseNumber (it_price it) 0
                       else p_price p)\<rparr>"
    and ps': "ps' = updateOne (p_id p) (\<lambda>stored. p') ps"
    by (elim saleStep_InrE)
  have "p \<in> set ps" using load by (rule loadProductByIdentifier_in_set)
  moreover have "0 \<le> p_quantity p'"
    using le by (simp add: p' roundToDouble_nonneg)
  ultimately show ?thesis
    unfolding ps' using assms(2)
    by (intro updateOne_rel) (simp_all add: keepsStock_def p')
qed

text \<open>
  A relation between stored products that is reflexive and transitive, keeps the
  \<^verbatim>\<open>_id\<close> and holds across every step holds across the loop.
\<close>

lemma saleLoop_rel:
  assumes refl: "\<And>q. R q q" and trans: "\<And>a b c. R a b \<Longrightarrow> R b c \<Longrightarrow> R a c"
    and ids: "\<And>xs ys. list_all2 R xs ys \<Longrightarrow> map p_id ys = map p_id xs"
    and step: "\<And>i it ps ps' p' l. saleStep ev i it ps = Inr (ps', p', l)
                 \<Longrightarrow> distinct (map p_id ps) \<Longrightarrow> list_all2 R ps ps'"
  shows "distinct (map p_id ps) \<Longrightarrow> list_all2 R ps (fst (saleLoop ev i its ps))"
proof (induction its arbitrary: i ps)
  case Nil
  then show ?case by (simp add: list_all2_refl refl)
next
  case (Cons it its)
  show ?case
  proof (cases "saleStep ev i it ps")
    case (Inl e)
    then show ?thesis by (simp add: list_all2_refl refl)
  next
    case (Inr r)
    obtain ps' p' l where r: "r = (ps', p', l)" by (cases r)
    have 1: "list_all2 R ps ps'"
      using Inr r Cons.prems by (simp add: step)
    then have "distinct (map p_id ps')"
      using Cons.prems by (simp add: ids)
    then have 2: "list_all2 R ps' (fst (saleLoop ev (Suc i) its ps'))"
      by (rule Cons.IH)
    have "fst (saleLoop ev i (it # its) ps) = fst (saleLoop ev (Suc i) its ps')"
      using Inr r by (simp split: prod.splits sum.splits)
    with list_all2_trans[OF trans 1 2] show ?thesis by simp
  qed
qed

lemma saleLoop_sameFrame:
  "distinct (map p_id ps) \<Longrightarrow> list_all2 sameFrame ps (fst (saleLoop ev i its ps))"
  by (rule saleLoop_rel[where R = sameFrame])
     (auto intro: sameFrame_refl sameFrame_trans sameFrame_ids saleStep_sameFrame)

lemma saleLoop_keepsStock:
  "distinct (map p_id ps) \<Longrightarrow> list_all2 keepsStock ps (fst (saleLoop ev i its ps))"
  by (rule saleLoop_rel[where R = keepsStock])
     (auto intro: keepsStock_refl keepsStock_trans keepsStock_ids saleStep_keepsStock)

lemma persistSale_inventory:
  "inventory (fst (persistSale ev b d)) =
     (case sb_items b of None \<Rightarrow> inventory d
      | Some items \<Rightarrow> fst (saleLoop ev 0 items (inventory d)))"
  by (simp add: persistSale_def Let_def split: option.splits prod.splits sum.splits)

lemma increment_inventory:
  "inventory (snd (incrementDashboardCounters a c d)) = inventory d"
  by (simp add: incrementDashboardCounters_def Let_def)

lemma sales_post_inventory:
  "inventory (snd (sales_post ev b d)) = inventory d \<or>
   (\<exists>items. sb_items b = Some items \<and>
      inventory (snd (sales_post ev b d)) = fst (saleLoop ev 0 items (inventory d)))"
proof (cases "\<not> truthy (sb_billId b) \<or> (case sb_items b of None \<Rightarrow> True | Some items \<Rightarrow> items = [])")
  case True
  then show ?thesis by (auto simp: sales_post_def)
next
  case False
  then obtain items where items: "sb_items b = Some items" by (auto split: option.splits)
  have "inventory (snd (sales_post ev b d)) = inventory (fst (persistSale ev b d))"
    using False
    by (auto simp: sales_post_def Let_def recalculate_eq increment_inventory
        split: prod.splits sum.splits)
  then show ?thesis using items by (simp add: persistSale_inventory)
qed

lemma purchases_load_InrE:
  assumes "purchases_loadProductByIdentifier ev session x ps = Inr r"
  shows "r = loadProductByIdentifier ev x ps \<and>
         (truthy x \<longrightarrow> \<not> (session \<and> \<not> transactionsSupported ev))"
  using assms
  by (auto simp: purchases_loadProductByIdentifier_def loadProductByIdentifier_def Let_def
      split: if_splits option.splits)

lemma purchaseStep_InrE:
  assumes "purchaseStep ev session i it ps = Inr (ps', p', l)"
  obtains p where
    "truthy (it_productId it)"
    "0 < parseInteger (it_quantity it) 0"
    "loadProductByIdentifier ev (it_productId it) ps = Some p"
    "\<not> (session \<and> \<not> transactionsSupported ev)"
    "p' = p\<lparr>p_quantity :=
                roundToDouble (numberParseInt (p_quantity p) + parseInteger (it_quantity it) 0),
           p_price := (if parseNumber (it_price it) 0 > 0 then parseNumber (it_price it) 0
                       else p_price p)\<rparr>"
    "validateProduct p'"
    "ps' = updateOne (p_id p) (\<lambda>stored. p') ps"
    "l = \<lparr>pi_productId = idString (p_id p'), pi_productName = p_name p',
          pi_quantity = parseInteger (it_quantity it) 0,
          pi_price = p_price p',
          pi_total = p_price p' * of_int (parseInteger (it_quantity it) 0),
          pi_size = normalizeString (p_size p'), pi_gsm = normalizeString (p_gsm p')\<rparr>"
proof -
  from assms obtain r where
    load: "purchases_loadProductByIdentifier ev session (it_productId it) ps = Inr r"
    and tr: "truthy (it_productId it)" and pos: "0 < parseInteger (it_quantity it) 0"
    by (auto simp: purchaseStep_def Let_def split: if_splits sum.splits)
  from purchases_load_InrE[OF load] tr
  have r: "r = loadProductByIdentifier ev (it_productId it) ps"
    and ns: "\<not> (session \<and> \<not> transactionsSupported ev)" by auto
  from assms load tr pos obtain p where p: "r = Some p"
    by (auto simp: purchaseStep_def Let_def split: if_splits sum.splits option.splits)
  show ?thesis
    using assms load tr pos p r ns
    by (intro that[of p])
       (auto simp: purchaseStep_def Let_def saveProductIn_def saveProduct_def
          parseInteger_def parseNumber_def split: if_splits sum.splits option.splits)
qed

lemma purchaseStep_sameFrame:
  assumes "purchaseStep ev session i it ps = Inr (ps', p', l)" and "distinct (map p_id ps)"
  shows "list_all2 sameFrame ps ps'"
proof -
  from assms(1) obtain p where
    load: "loadProductByIdentifier ev (it_productId it) ps = Some p"
    and p': "p' = p\<lparr>p_quantity :=
                roundToDouble (numberParseInt (p_quantity p) + parseInteger (it_quantity it) 0),
           p_price := (if parseNumber (it_price it) 0 > 0 then parseNumber (it_price it) 0
                       else p_price p)\<rparr>"
    and ps': "ps' = updateOne (p_id p) (\<lambda>stored. p') ps"
    by (elim purchaseStep_InrE)
  have "p \<in> set ps" using load by (rule loadProductByIdentifier_in_set)
  with assms(2) show ?thesis
    unfolding ps' by (rule updateOne_rel) (simp_all add: sameFrame_def p')
qed

lemma purchaseStep_keepsStock:
  assumes "purchaseStep ev session i it ps = Inr (ps', p', l)" and "distinct (map p_id ps)"
  shows "list_all2 keepsStock ps ps'"
proof -
  from assms(1) obtain p where
    pos: "0 < parseInteger (it_quantity it) 0"
    and load: "loadProductByIdentifier ev (it_productId it) ps = Some p"
    and p': "p' = p\<lparr>p_quantity :=
                roundToDouble (numberParseInt (p_quantity p) + parseInteger (it_quantity it) 0),
           p_price := (if parseNumber (it_price it) 0 > 0 then parseNumber (it_price it) 0
                       else p_price p)\<rparr>"
    and ps': "ps' = updateOne (p_id p) (\<lambda>stored. p') ps"
    by (elim purchaseStep_InrE)
  have "p \<in> set ps" using load by (rule loadProductByIdentifier_in_set)
  moreover have "0 \<le> p_quantity p \<Longrightarrow> 0 \<le> p_quantity p'"
    using pos numberParseInt_nonneg[of "p_quantity p"] by (simp add: p' roundToDouble_nonneg)
  ultimately show ?thesis
    unfolding ps' using assms(2)
    by (intro updateOne_rel) (simp_all add: keepsStock_def p')
qed

lemma purchaseLoop_rel:
  assumes refl: "\<And>q. R q q" and trans: "\<And>a b c. R a b \<Longrightarrow> R b c \<Longrightarrow> R a c"
    and ids: "\<And>xs ys. list_all2 R xs ys \<Longrightarrow> map p_id ys = map p_id xs"
    and step: "\<And>i it ps ps' p' l. purchaseStep ev session i it ps = Inr (ps', p', l)
                 \<Longrightarrow> distinct (map p_id ps) \<Longrightarrow> list_all2 R ps ps'"
  shows "distinct (map p_id ps)
         \<Longrightarrow> list_all2 R ps (fst (purchaseLoop ev session i its ps))"
proof (induction its arbitrary: i ps)
  case Nil
  then show ?case by (simp add: list_all2_refl refl)
next
  case (Cons it its)
  show ?case
  proof (cases "purchaseStep ev session i it ps")
    case (Inl e)
    then show ?thesis by (simp add: list_all2_refl refl)
  next
    case (Inr r)
    obtain ps' p' l where r: "r = (ps', p', l)" by (cases r)
    have 1: "list_all2 R ps ps'"
      using Inr r Cons.prems by (simp add: step)
    then have "distinct (map p_id ps')"
      using Cons.prems by (simp add: ids)
    then have 2: "list_all2 R ps' (fst (purchaseLoop ev session (Suc i) its ps'))"
      by (rule Cons.IH)
    have "fst (purchaseLoop ev session i (it # its) ps)
          = fst (purchaseLoop ev session (Suc i) its ps')"
      using Inr r by (simp split: prod.splits sum.splits)
    with list_all2_trans[OF trans 1 2] show ?thesis by simp
  qed
qed

lemma purchaseLoop_sameFrame:
  "distinct (map p_id ps)
   \<Longrightarrow> list_all2 sameFrame ps (fst (purchaseLoop ev session i its ps))"
  by (rule purchaseLoop_rel[where R = sameFrame])
     (auto intro: sameFrame_refl sameFrame_trans sameFrame_ids purchaseStep_sameFrame)

lemma purchaseLoop_keepsStock:
  "distinct (map p_id ps)
   \<Longrightarrow> list_all2 keepsStock ps (fst (purchaseLoop ev session i its ps))"
  by (rule purchaseLoop_rel[where R = keepsStock])
     (auto intro: keepsStock_refl keepsStock_trans keepsStock_ids purchaseStep_keepsStock)

lemma persistPurchase_inventory:
  "inventory (fst (persistPurchase ev session b d)) =
     (case pb_items b of None \<Rightarrow> inventory d
      | Some items \<Rightarrow> fst (purchaseLoop ev session 0 items (inventory d)))"
  by (simp add: persistPurchase_def Let_def split: option.splits prod.splits sum.splits)

lemma purchaseResponse_inventory:
  "inventory (snd (purchaseResponse ev r d)) = inventory d"
  by (simp add: purchaseResponse_def recalculate_eq)

lemma purchases_post_inventory:
  "inventory (snd (purchases_post ev b d)) = inventory d \<or>
   (\<exists>items session. pb_items b = Some items \<and>
      inventory (snd (purchases_post ev b d))
        = fst (purchaseLoop ev session 0 items (inventory d)))"
proof (cases "\<not> truthy (pb_billId b) \<or> (case pb_items b of None \<Rightarrow> True | Some items \<Rightarrow> items = [])")
  case True
  then show ?thesis by (auto simp: purchases_post_def)
next
  case False
  then obtain items where items: "pb_items b = Some items" by (auto split: option.splits)
  define s where "s = (transactionsRequested ev \<and> canUseTransactions ev)"
  have "inventory (snd (purchases_post ev b d)) = inventory d
      \<or> inventory (snd (purchases_post ev b d)) = inventory (fst (persistPurchase ev s b d))
      \<or> inventory (snd (purchases_post ev b d)) = inventory (fst (persistPurchase ev False b d))"
    using False unfolding s_def
    by (auto simp: purchases_post_def Let_def purchaseResponse_inventory
        split: prod.splits sum.splits)
  then show ?thesis using items by (auto simp: persistPurchase_inventory)
qed

section \<open>Frame and stock invariants of the two routers\<close>

text \<open>
  Claim C10. The transaction processor changes only the quantity and the price of a
  product. \<^verbatim>\<open>product.save()\<close> writes the loaded document back over the stored one, and
  the loop bodies assign only \<^verbatim>\<open>quantity\<close> and \<^verbatim>\<open>price\<close> on it: after a sale
  request and after a purchase request (successful or not, with or without a transaction)
  the inventory has the same length, and the product at every position has its
  \<^verbatim>\<open>_id\<close>, name, sku, productId, reorderPoint, size, gsm and image unchanged. (The
  \<^verbatim>\<open>_id\<close>s of the collection are distinct, as the database guarantees.)
\<close>

theorem processing_keeps_other_fields:
  assumes "distinct (map p_id (inventory d))"
    and "i < length (inventory d)"
  shows "length (inventory (snd (sales_post ev sb d))) = length (inventory d) \<and>
         sameFrame (inventory d ! i) (inventory (snd (sales_post ev sb d)) ! i) \<and>
         length (inventory (snd (purchases_post ev pb d))) = length (inventory d) \<and>
         sameFrame (inventory d ! i) (inventory (snd (purchases_post ev pb d)) ! i)"
proof -
  have s: "list_all2 sameFrame (inventory d) (inventory (snd (sales_post ev sb d)))"
    using sales_post_inventory[of ev sb d] assms(1)
    by (auto simp: list_all2_refl sameFrame_refl saleLoop_sameFrame)
  have p: "list_all2 sameFrame (inventory d) (inventory (snd (purchases_post ev pb d)))"
    using purchases_post_inventory[of ev pb d] assms(1)
    by (auto simp: list_all2_refl sameFrame_refl purchaseLoop_sameFrame)
  show ?thesis
    using s p assms(2) by (simp add: list_all2_conv_all_nth)
qed

theorem processing_keeps_other_fields_witness:
  "distinct (map p_id (inventory twoProductDb)) \<and>
   (1::nat) < length (inventory twoProductDb) \<and>
   inventory (snd (sales_post exampleEnv (exampleSale [exampleItem 3, otherItem 1])
       twoProductDb))
     = [exampleProduct\<lparr>p_quantity := 2\<rparr>, otherProduct\<lparr>p_quantity := 0, p_price := 6\<rparr>] \<and>
   inventory (snd (purchases_post exampleEnv (examplePurchase [otherItem 3, otherItem 4])
       twoProductDb))
     = [exampleProduct, otherProduct\<lparr>p_quantity := 8, p_price := 6\<rparr>] \<and>
   sameFrame (inventory twoProductDb ! 1)
     (inventory (snd (sales_post exampleEnv (exampleSale [exampleItem 3, otherItem 1])
       twoProductDb)) ! 1) \<and>
   sameFrame (inventory twoProductDb ! 1)
     (inventory (snd (purchases_post exampleEnv (examplePurchase [otherItem 3, otherItem 4])
       twoProductDb)) ! 1)"
  using processing_keeps_other_fields[of twoProductDb 1 exampleEnv
      "exampleSale [exampleItem 3, otherItem 1]" "examplePurchase [otherItem 3, otherItem 4]"]
  by code_simp

text \<open>
  Claim C3. A product whose quantity is not negative keeps a non-negative quantity through
  every sale request and every purchase request: a sale deducts only a quantity that is
  at most the one on hand, a purchase adds a positive quantity. (The \<^verbatim>\<open>_id\<close>s of the
  collection are distinct, as the database guarantees.)
\<close>

theorem quantity_never_negative:
  assumes "distinct (map p_id (inventory d))"
    and "i < length (inventory d)"
    and "0 \<le> p_quantity (inventory d ! i)"
  shows "p_id (inventory (snd (sales_post ev sb d)) ! i) = p_id (inventory d ! i) \<and>
         0 \<le> p_quantity (inventory (snd (sales_post ev sb d)) ! i) \<and>
         p_id (inventory (snd (purchases_post ev pb d)) ! i) = p_id (inventory d ! i) \<and>
         0 \<le> p_quantity (inventory (snd (purchases_post ev pb d)) ! i)"
proof -
  have s: "list_all2 keepsStock (inventory d) (inventory (snd (sales_post ev sb d)))"
    using sales_post_inventory[of ev sb d] assms(1)
    by (auto simp: list_all2_refl keepsStock_refl saleLoop_keepsStock)
  have p: "list_all2 keepsStock (inventory d) (inventory (snd (purchases_post ev pb d)))"
    using purchases_post_inventory[of ev pb d] assms(1)
    by (auto simp: list_all2_refl keepsStock_refl purchaseLoop_keepsStock)
  show ?thesis
    using s p assms(2,3) by (simp add: list_all2_conv_all_nth keepsStock_def)
qed

theorem quantity_never_negative_witness:
  "distinct (map p_id (inventory exampleDb)) \<and>
   (0::nat) < length (inventory exampleDb) \<and>
   0 \<le> p_quantity (inventory exampleDb ! 0) \<and>
   p_quantity (inventory (snd (sales_post exampleEnv (exampleSale [exampleItem 5])
      exampleDb)) ! 0) = 0 \<and>
   0 \<le> p_quantity (inventory (snd (sales_post exampleEnv (exampleSale [exampleItem 5])
      exampleDb)) ! 0) \<and>
   0 \<le> p_quantity (inventory (snd (purchases_post exampleEnv
      (examplePurchase [exampleItem 3]) exampleDb)) ! 0)"
  using quantity_never_negative[of exampleDb 0 exampleEnv "exampleSale [exampleItem 5]"
      "examplePurchase [exampleItem 3]"]
  by code_simp

section \<open>Failures inside a batch\<close>

lemma message_nonempty: "message e \<noteq> []"
  by (cases e) simp_all

lemma errorMessage_message: "errorMessage e = message e"
  by (simp add: errorMessage_def message_nonempty)

lemma saleLoop_append:
  "saleLoop ev i (xs @ ys) ps =
     (case saleLoop ev i xs ps of
        (ps1, Inl e) \<Rightarrow> (ps1, Inl e)
      | (ps1, Inr (ups1, lines1)) \<Rightarrow>
          (case saleLoop ev (i + length xs) ys ps1 of
             (ps2, Inl e) \<Rightarrow> (ps2, Inl e)
           | (ps2, Inr (ups2, lines2)) \<Rightarrow> (ps2, Inr (ups1 @ ups2, lines1 @ lines2))))"
proof (induction xs arbitrary: i ps)
  case Nil
  then show ?case by (simp split: prod.splits sum.splits)
next
  case (Cons x xs)
  show ?case
  proof (cases "saleStep ev i x ps")
    case (Inl e)
    then show ?thesis by simp
  next
    case (Inr r)
    obtain ps' p' l where r: "r = (ps', p', l)" by (cases r)
    show ?thesis
      using Inr r by (simp add: Cons.IH[of "Suc i" ps'] split: prod.splits sum.splits)
  qed
qed


lemma saleLoop_fails_at:
  assumes "saleLoop ev 0 pre ps = (ps1, Inr r1)" and "saleStep ev (length pre) it ps1 = Inl e"
  shows "saleLoop ev 0 (pre @ it # post) ps = (ps1, Inl e)"
  using assms by (cases r1) (simp add: saleLoop_append)

lemma sales_post_error:
  assumes "truthy (sb_billId b)" and "sb_items b = Some items" and "items \<noteq> []"
    and "saleLoop ev 0 items (inventory d) = (ps1, Inl e)"
  shows "sales_post ev b d = (Response 500 (ErrorBody (message e)), d\<lparr>inventory := ps1\<rparr>)"
  using assms by (simp add: sales_post_def persistSale_def errorMessage_message)

text \<open>
  Claim C2. When item \<open>i\<close> of a sale batch fails after the items before it were
  processed, the request is answered with the error, the inventory is left as those
  earlier items changed it (nothing is rolled back), and no Sale record is created.
\<close>

theorem failed_sale_keeps_earlier_mutations:
  assumes "truthy (sb_billId b)" and "sb_items b = Some (pre @ it # post)"
    and "saleLoop ev 0 pre (inventory d) = (ps1, Inr (ups1, lines1))"
    and "saleStep ev (length pre) it ps1 = Inl e"
  shows "fst (sales_post ev b d) = Response 500 (ErrorBody (message e)) \<and>
         inventory (snd (sales_post ev b d)) = ps1 \<and>
         sales (snd (sales_post ev b d)) = sales d"
proof -
  have "saleLoop ev 0 (pre @ it # post) (inventory d) = (ps1, Inl e)"
    using assms(3,4) by (rule saleLoop_fails_at)
  then have "sales_post ev b d = (Response 500 (ErrorBody (message e)), d\<lparr>inventory := ps1\<rparr>)"
    using assms(1,2) by (intro sales_post_error) simp_all
  then show ?thesis by simp
qed

theorem failed_sale_keeps_earlier_mutations_witness:
  "truthy (sb_billId (exampleSale [exampleItem 3, exampleItem 3, exampleItem 1])) \<and>
   sb_items (exampleSale [exampleItem 3, exampleItem 3, exampleItem 1])
     = Some ([exampleItem 3] @ exampleItem 3 # [exampleItem 1]) \<and>
   saleLoop exampleEnv 0 [exampleItem 3] (inventory exampleDb)
     = ([exampleProduct\<lparr>p_quantity := 2\<rparr>],
        Inr ([exampleProduct\<lparr>p_quantity := 2\<rparr>],
             [\<lparr>si_productId = ''65f1c0de0000000000000001'', si_productName = ''Tarpaulin'', si_quantity = 3,
               si_price = 10, si_pricePerQuantity = 30, si_total = 30,
               si_size = ''12x10'', si_gsm = ''120''\<rparr>])) \<and>
   saleStep exampleEnv (length [exampleItem 3]) (exampleItem 3) [exampleProduct\<lparr>p_quantity := 2\<rparr>]
     = Inl (InsufficientStock ''Tarpaulin'') \<and>
   fst (sales_post exampleEnv (exampleSale [exampleItem 3, exampleItem 3, exampleItem 1])
          exampleDb)
     = Response 500 (ErrorBody ''Insufficient stock for product Tarpaulin'') \<and>
   inventory (snd (sales_post exampleEnv
       (exampleSale [exampleItem 3, exampleItem 3, exampleItem 1]) exampleDb))
     = [exampleProduct\<lparr>p_quantity := 2\<rparr>] \<and>
   sales (snd (sales_post exampleEnv
       (exampleSale [exampleItem 3, exampleItem 3, exampleItem 1]) exampleDb)) = []"
  using failed_sale_keeps_earlier_mutations[of
      "exampleSale [exampleItem 3, exampleItem 3, exampleItem 1]"
      "[exampleItem 3]" "exampleItem 3" "[exampleItem 1]" exampleEnv exampleDb
      "[exampleProduct\<lparr>p_quantity := 2\<rparr>]" "[exampleProduct\<lparr>p_quantity := 2\<rparr>]"
      "[\<lparr>si_productId = ''65f1c0de0000000000000001'', si_productName = ''Tarpaulin'', si_quantity = 3,
               si_price = 10, si_pricePerQuantity = 30, si_total = 30,
               si_size = ''12x10'', si_gsm = ''120''\<rparr>]"
      "InsufficientStock ''Tarpaulin''"]
  by code_simp

section \<open>Validation failures\<close>













section \<open>The line items of a sale\<close>

lemma saleStep_line:
  assumes "saleStep ev i it ps = Inr (ps', p', l)"
  shows "\<exists>p. loadProductByIdentifier ev (it_productId it) ps = Some p \<and>
           si_productId l = idString (p_id p) \<and> si_productName l = p_name p \<and>
           si_quantity l = parseInteger (it_quantity it) 0 \<and>
           si_price l = (if 0 < parseNumber (it_price it) 0 then parseNumber (it_price it) 0
                         else p_price p) \<and>
           si_total l = (if 0 < parseNumber (it_pricePerQuantity it) 0
                         then parseNumber (it_pricePerQuantity it) 0
                         else si_price l) * of_int (si_quantity l) \<and>
           p_price p' = si_price l"
  using assms
  by (auto simp: saleStep_def Let_def saveProduct_def parseInteger_def parseNumber_def
      split: if_splits option.splits sum.splits)

lemma saleLoop_Cons_fst:
  "saleStep ev i it ps = Inr (ps1, p1, l1)
   \<Longrightarrow> fst (saleLoop ev i (it # xs) ps) = fst (saleLoop ev (Suc i) xs ps1)"
  by (simp split: prod.splits sum.splits)

lemma saleLoop_nth:
  assumes "saleLoop ev i items ps = (ps', Inr (ups, lines))" and "k < length items"
  shows "length ups = length items \<and> length lines = length items \<and>
         saleStep ev (i + k) (items ! k) (fst (saleLoop ev i (take k items) ps))
           = Inr (fst (saleLoop ev i (take (Suc k) items) ps), ups ! k, lines ! k)"
  using assms
proof (induction items arbitrary: i ps ups lines k)
  case Nil
  then show ?case by simp
next
  case (Cons it its)
  from Cons.prems(1) obtain ps1 p1 l1 ups' lines' where
    step: "saleStep ev i it ps = Inr (ps1, p1, l1)"
    and rest: "saleLoop ev (Suc i) its ps1 = (ps', Inr (ups', lines'))"
    and ups: "ups = p1 # ups'" and lines: "lines = l1 # lines'"
    by (auto split: sum.splits prod.splits)
  show ?case
  proof (cases k)
    case 0
    have "length ups' = length its \<and> length lines' = length its"
    proof (cases its)
      case Nil
      then show ?thesis using rest by simp
    next
      case (Cons a as)
      then show ?thesis using Cons.IH[OF rest, of 0] by simp
    qed
    then show ?thesis using 0 step ups lines by simp
  next
    case (Suc k')
    then have k': "k' < length its" using Cons.prems(2) by simp
    from Cons.IH[OF rest k'] show ?thesis
      using Suc step ups lines by (simp add: saleLoop_Cons_fst del: saleLoop.simps)
  qed
qed

lemma persistSale_InrE:
  assumes "persistSale ev b d = (d', Inr (sale, ups))" and "sb_items b = Some items"
  obtains ps' lines where
    "saleLoop ev 0 items (inventory d) = (ps', Inr (ups, lines))"
    "sale = buildSale b lines" "validateSale sale"
    "d' = d\<lparr>inventory := ps', sales := sales d @ [sale]\<rparr>"
  using assms
  by (auto simp: persistSale_def Let_def split: prod.splits sum.splits if_splits)

lemma buildSale_items: "s_items (buildSale b lines) = lines"
  by (simp add: buildSale_def Let_def split: dateField.splits)

lemma buildSale_billId: "s_billId (buildSale b lines) = normalizeString (sb_billId b)"
  by (simp add: buildSale_def Let_def split: dateField.splits)

text \<open>
  Claim C4, as the code has it. For the item at index \<open>k\<close> of a persisted sale, the
  product is the one the identifier resolves to when the loop reaches the item; the line
  stored in the Sale record has the requested quantity, the effective unit price (the
  supplied price when it is positive, the product's stored price otherwise), and a total
  that is the quantity times the supplied \<^verbatim>\<open>pricePerQuantity\<close> when that is
  positive, times the effective unit price otherwise.
\<close>

theorem sale_line_snapshot:
  assumes "persistSale ev b d = (d', Inr (sale, ups))" and "sb_items b = Some items"
    and "k < length items"
  shows "\<exists>p. loadProductByIdentifier ev (it_productId (items ! k))
                (fst (saleLoop ev 0 (take k items) (inventory d))) = Some p \<and>
           sale \<in> set (sales d') \<and>
           si_quantity (s_items sale ! k) = parseInteger (it_quantity (items ! k)) 0 \<and>
           si_price (s_items sale ! k) =
             (if 0 < parseNumber (it_price (items ! k)) 0
              then parseNumber (it_price (items ! k)) 0 else p_price p) \<and>
           si_total (s_items sale ! k) =
             (if 0 < parseNumber (it_pricePerQuantity (items ! k)) 0
              then parseNumber (it_pricePerQuantity (items ! k)) 0
              else si_price (s_items sale ! k)) * of_int (si_quantity (s_items sale ! k))"
proof -
  from assms(1,2) obtain ps' lines where
    loop: "saleLoop ev 0 items (inventory d) = (ps', Inr (ups, lines))"
    and sale: "sale = buildSale b lines"
    and d': "d' = d\<lparr>inventory := ps', sales := sales d @ [sale]\<rparr>"
    by (elim persistSale_InrE)
  from saleLoop_nth[OF loop assms(3)]
  have "saleStep ev k (items ! k) (fst (saleLoop ev 0 (take k items) (inventory d)))
           = Inr (fst (saleLoop ev 0 (take (Suc k) items) (inventory d)), ups ! k, lines ! k)"
    by simp
  from saleStep_line[OF this] show ?thesis
    using sale d' by (auto simp: buildSale_items)
qed

theorem sale_line_snapshot_witness:
  "(persistSale exampleEnv (exampleSale [pricedItem]) exampleDb
      = (exampleDb\<lparr>inventory := [exampleProduct\<lparr>p_quantity := 3, p_price := 12\<rparr>],
                    sales := [pricedSale]\<rparr>,
         Inr (pricedSale, [exampleProduct\<lparr>p_quantity := 3, p_price := 12\<rparr>])) \<and>
    sb_items (exampleSale [pricedItem]) = Some [pricedItem] \<and>
    (0::nat) < length [pricedItem]) \<and>
   (\<exists>p. loadProductByIdentifier exampleEnv (it_productId ([pricedItem] ! 0))
                (fst (saleLoop exampleEnv 0 (take 0 [pricedItem]) (inventory exampleDb))) = Some p \<and>
        pricedSale \<in> set (sales (exampleDb\<lparr>inventory := [exampleProduct\<lparr>p_quantity := 3, p_price := 12\<rparr>],
                    sales := [pricedSale]\<rparr>)) \<and>
        si_quantity (s_items pricedSale ! 0) = parseInteger (it_quantity ([pricedItem] ! 0)) 0 \<and>
        si_price (s_items pricedSale ! 0) =
          (if 0 < parseNumber (it_price ([pricedItem] ! 0)) 0
           then parseNumber (it_price ([pricedItem] ! 0)) 0 else p_price p) \<and>
        si_total (s_items pricedSale ! 0) =
          (if 0 < parseNumber (it_pricePerQuantity ([pricedItem] ! 0)) 0
           then parseNumber (it_pricePerQuantity ([pricedItem] ! 0)) 0
           else si_price (s_items pricedSale ! 0)) * of_int (si_quantity (s_items pricedSale ! 0)))"
proof -
  have h: "persistSale exampleEnv (exampleSale [pricedItem]) exampleDb
      = (exampleDb\<lparr>inventory := [exampleProduct\<lparr>p_quantity := 3, p_price := 12\<rparr>],
                    sales := [pricedSale]\<rparr>,
         Inr (pricedSale, [exampleProduct\<lparr>p_quantity := 3, p_price := 12\<rparr>])) \<and>
    sb_items (exampleSale [pricedItem]) = Some [pricedItem] \<and>
    (0::nat) < length [pricedItem]"
    by code_simp
  from h sale_line_snapshot[where ev = exampleEnv and b = "exampleSale [pricedItem]" and d = exampleDb
      and items = "[pricedItem]" and k = 0 and sale = pricedSale
      and ups = "[exampleProduct\<lparr>p_quantity := 3, p_price := 12\<rparr>]"
      and d' = "exampleDb\<lparr>inventory := [exampleProduct\<lparr>p_quantity := 3, p_price := 12\<rparr>],
                    sales := [pricedSale]\<rparr>"]
  show ?thesis by blast
qed

theorem sale_line_total_counterexample:
  "persistSale exampleEnv (exampleSale [pricedItem]) exampleDb
      = (exampleDb\<lparr>inventory := [exampleProduct\<lparr>p_quantity := 3, p_price := 12\<rparr>],
                    sales := [pricedSale]\<rparr>,
         Inr (pricedSale, [exampleProduct\<lparr>p_quantity := 3, p_price := 12\<rparr>])) \<and>
   map (\<lambda>l. (si_price l, si_quantity l, si_total l)) (s_items pricedSale) = [(12, 2, 14)] \<and>
   map (\<lambda>l. si_price l * of_int (si_quantity l)) (s_items pricedSale) = [24] \<and>
   si_total (s_items pricedSale ! 0)
     \<noteq> si_price (s_items pricedSale ! 0) * of_int (si_quantity (s_items pricedSale ! 0))"
  by code_simp

section \<open>Insufficient stock\<close>

lemma updateOne_schemaValid:
  "schemaValid ps \<Longrightarrow> idString (p_id q) \<noteq> [] \<Longrightarrow> validateProduct q
   \<Longrightarrow> schemaValid (updateOne i (\<lambda>stored. q) ps)"
  by (induction ps) (simp_all add: schemaValid_def)

lemma schemaValid_member:
  "schemaValid ps \<Longrightarrow> p \<in> set ps \<Longrightarrow> idString (p_id p) \<noteq> [] \<and> validateProduct p"
  by (simp add: schemaValid_def list_all_iff)

lemma saleStep_schemaValid:
  assumes "saleStep ev i it ps = Inr (ps', p', l)" and "schemaValid ps"
  shows "schemaValid ps'"
proof -
  from assms(1) obtain p where
    load: "loadProductByIdentifier ev (it_productId it) ps = Some p"
    and p': "p' = p\<lparr>p_quantity :=
                roundToDouble (numberParseInt (p_quantity p) - parseInteger (it_quantity it) 0),
           p_price := (if parseNumber (it_price it) 0 > 0 then parseNumber (it_price it) 0
                       else p_price p)\<rparr>"
    and v: "validateProduct p'"
    and ps': "ps' = updateOne (p_id p) (\<lambda>stored. p') ps"
    by (elim saleStep_InrE)
  have "p \<in> set ps" using load by (rule loadProductByIdentifier_in_set)
  with assms(2) have "idString (p_id p) \<noteq> []" by (simp add: schemaValid_member)
  then have "idString (p_id p') \<noteq> []" by (simp add: p')
  with assms(2) show ?thesis unfolding ps' using v by (intro updateOne_schemaValid)
qed

lemma saleLoop_schemaValid:
  "schemaValid ps \<Longrightarrow> schemaValid (fst (saleLoop ev i its ps))"
proof (induction its arbitrary: i ps)
  case Nil
  then show ?case by simp
next
  case (Cons it its)
  show ?case
  proof (cases "saleStep ev i it ps")
    case (Inl e)
    then show ?thesis using Cons.prems by simp
  next
    case (Inr r)
    obtain ps' p' l where r: "r = (ps', p', l)" by (cases r)
    have "schemaValid ps'"
      using Inr r Cons.prems by (auto intro: saleStep_schemaValid)
    then have "schemaValid (fst (saleLoop ev (Suc i) its ps'))" by (rule Cons.IH)
    moreover have "fst (saleLoop ev i (it # its) ps) = fst (saleLoop ev (Suc i) its ps')"
      using Inr r by (simp split: prod.splits sum.splits)
    ultimately show ?thesis by simp
  qed
qed

lemma saleLoop_lines_valid:
  assumes "saleLoop ev i items ps = (ps', Inr (ups, lines))" and "schemaValid ps"
  shows "list_all (\<lambda>l. si_productId l \<noteq> [] \<and> si_productName l \<noteq> []) lines"
proof -
  have "si_productId (lines ! k) \<noteq> [] \<and> si_productName (lines ! k) \<noteq> []"
    if k: "k < length items" for k
  proof -
    let ?S = "fst (saleLoop ev i (take k items) ps)"
    have step: "saleStep ev (i + k) (items ! k) ?S
         = Inr (fst (saleLoop ev i (take (Suc k) items) ps), ups ! k, lines ! k)"
      using saleLoop_nth[OF assms(1) k] by simp
    have valid: "schemaValid ?S"
      using assms(2) by (rule saleLoop_schemaValid)
    from saleStep_line[OF step] obtain p where
      load: "loadProductByIdentifier ev (it_productId (items ! k)) ?S = Some p"
      and l: "si_productId (lines ! k) = idString (p_id p)"
        "si_productName (lines ! k) = p_name p"
      by blast
    have "p \<in> set ?S" using load by (rule loadProductByIdentifier_in_set)
    with valid l show ?thesis
      using schemaValid_member[of ?S p] by (simp add: validateProduct_def)
  qed
  moreover have "length lines = length items"
  proof (cases items)
    case Nil
    then show ?thesis using assms(1) by simp
  next
    case (Cons a as)
    then show ?thesis using saleLoop_nth[OF assms(1), of 0] by simp
  qed
  ultimately show ?thesis by (simp add: list_all_length)
qed

lemma loadProductByIdentifier_truthy:
  "loadProductByIdentifier ev x ps = Some p \<Longrightarrow> truthy x"
  by (auto simp: loadProductByIdentifier_def split: if_splits)

lemma saleStep_ok:
  assumes "0 < parseInteger (it_quantity it) 0"
    and "loadProductByIdentifier ev (it_productId it) ps = Some p"
    and "parseInteger (it_quantity it) 0 \<le> numberParseInt (p_quantity p)"
    and "validateProduct p"
  shows "\<exists>ps' p' l. saleStep ev i it ps = Inr (ps', p', l)"
  using assms loadProductByIdentifier_truthy[OF assms(2)]
  by (simp add: saleStep_def Let_def saveProduct_def validateProduct_def parseInteger_def)

lemma saleStep_insufficient:
  assumes "0 < parseInteger (it_quantity it) 0"
    and "loadProductByIdentifier ev (it_productId it) ps = Some p"
    and "numberParseInt (p_quantity p) < parseInteger (it_quantity it) 0"
  shows "saleStep ev i it ps = Inl (InsufficientStock (p_name p))"
  using assms loadProductByIdentifier_truthy[OF assms(2)]
  by (simp add: saleStep_def Let_def parseInteger_def)

lemma validateSale_buildSale:
  "validateSale (buildSale b lines) =
     (normalizeString (sb_billId b) \<noteq> [] \<and>
      list_all (\<lambda>l. si_productId l \<noteq> [] \<and> si_productName l \<noteq> []) lines)"
  by (simp add: validateSale_def buildSale_items buildSale_billId)

lemma persistSale_success:
  assumes "sb_items b = Some items"
    and "saleLoop ev 0 items (inventory d) = (ps2, Inr (ups, lines))"
    and "validateSale (buildSale b lines)"
  shows "persistSale ev b d
         = (d\<lparr>inventory := ps2, sales := sales d @ [buildSale b lines]\<rparr>,
            Inr (buildSale b lines, ups))"
  using assms by (simp add: persistSale_def Let_def)

lemma sales_post_success:
  assumes "truthy (sb_billId b)" and "sb_items b = Some items" and "items \<noteq> []"
    and "saleLoop ev 0 items (inventory d) = (ps2, Inr (ups, lines))"
    and "validateSale (buildSale b lines)"
  shows "\<exists>dash. fst (sales_post ev b d) = Response 201 (SaleBody (buildSale b lines) ups dash) \<and>
           sales (snd (sales_post ev b d)) = sales d @ [buildSale b lines] \<and>
           inventory (snd (sales_post ev b d)) = ps2"
proof -
  have p: "persistSale ev b d
         = (d\<lparr>inventory := ps2, sales := sales d @ [buildSale b lines]\<rparr>,
            Inr (buildSale b lines, ups))"
    using assms(2,4,5) by (rule persistSale_success)
  have s: "sales (snd (incrementDashboardCounters a c x)) = sales x" for a c x
    by (simp add: incrementDashboardCounters_def Let_def)
  show ?thesis
  proof (cases "NODE_ENV ev \<noteq> Some ''test''")
    case True
    then show ?thesis
      using assms(1,2,3) p
      by (simp add: sales_post_def recalculate_eq increment_inventory s Let_def)
  next
    case False
    then show ?thesis
      using assms(1,2,3) p by (simp add: sales_post_def)
  qed
qed

text \<open>
  Claim C1, as the code has it. In a sale batch whose earlier items went through, an item
  that asks for a quantity greater than 0 and greater than the one its product has on hand
  makes the request fail with the insufficient-stock error, and no Sale record is
  persisted. The same batch with that item's quantity reduced to exactly the on-hand
  amount succeeds (status 201), persists the Sale built from the lines of the whole batch
  and leaves the inventory as the loop over the whole batch left it, when that amount is
  greater than 0 and less than \<open>10 ^ 21\<close> (from there on \<^verbatim>\<open>Number.parseInt\<close> reads
  the stored Number by its exponent form), the items after it go through, the stored
  products satisfy their schema and the billId is not blank.
\<close>

theorem insufficient_stock_then_reduced:
  assumes "truthy (sb_billId b)"
    and "sb_items b = Some (pre @ it # post)"
    and "saleLoop ev 0 pre (inventory d) = (ps1, Inr (ups1, lines1))"
    and "loadProductByIdentifier ev (it_productId it) ps1 = Some p"
    and "0 < parseInteger (it_quantity it) 0"
    and "p_quantity p < parseInteger (it_quantity it) 0"
  shows "fst (sales_post ev b d)
           = Response 500 (ErrorBody (''Insufficient stock for product '' @ p_name p)) \<and>
         sales (snd (sales_post ev b d)) = sales d \<and>
         (0 < p_quantity p \<and> p_quantity p < 10 ^ 21 \<and>
          schemaValid (inventory d) \<and> normalizeString (sb_billId b) \<noteq> [] \<and>
          saleLoop ev (Suc (length pre)) post
            (fst (saleLoop ev 0 (pre @ [it\<lparr>it_quantity := Some (p_quantity p)\<rparr>])
                   (inventory d)))
            = (ps2, Inr (ups2, lines2))
          \<longrightarrow> (\<exists>ups lines dash.
                 saleLoop ev 0 (pre @ it\<lparr>it_quantity := Some (p_quantity p)\<rparr> # post)
                     (inventory d)
                   = (ps2, Inr (ups, lines)) \<and>
                 fst (sales_post ev
                        (b\<lparr>sb_items :=
                             Some (pre @ it\<lparr>it_quantity := Some (p_quantity p)\<rparr> # post)\<rparr>) d)
                   = Response 201
                       (SaleBody
                          (buildSale
                             (b\<lparr>sb_items :=
                                  Some (pre @ it\<lparr>it_quantity := Some (p_quantity p)\<rparr> # post)\<rparr>)
                             lines)
                          ups dash) \<and>
                 sales (snd (sales_post ev
                        (b\<lparr>sb_items :=
                             Some (pre @ it\<lparr>it_quantity := Some (p_quantity p)\<rparr> # post)\<rparr>) d))
                   = sales d @
                     [buildSale
                        (b\<lparr>sb_items :=
                             Some (pre @ it\<lparr>it_quantity := Some (p_quantity p)\<rparr> # post)\<rparr>)
                        lines] \<and>
                 inventory (snd (sales_post ev
                        (b\<lparr>sb_items :=
                             Some (pre @ it\<lparr>it_quantity := Some (p_quantity p)\<rparr> # post)\<rparr>) d))
                   = ps2))"
proof (intro conjI impI)
  have "numberParseInt (p_quantity p) < parseInteger (it_quantity it) 0"
    using assms(6,5) by (rule numberParseInt_less)
  with assms(5,4)
  have fail: "saleStep ev (length pre) it ps1 = Inl (InsufficientStock (p_name p))"
    by (intro saleStep_insufficient)
  have "saleLoop ev 0 (pre @ it # post) (inventory d)
          = (ps1, Inl (InsufficientStock (p_name p)))"
    using assms(3) fail by (rule saleLoop_fails_at)
  then have r: "sales_post ev b d
      = (Response 500 (ErrorBody (message (InsufficientStock (p_name p)))),
         d\<lparr>inventory := ps1\<rparr>)"
    using assms(1,2) by (intro sales_post_error) simp_all
  show "fst (sales_post ev b d)
           = Response 500 (ErrorBody (''Insufficient stock for product '' @ p_name p))"
    using r by simp
  show "sales (snd (sales_post ev b d)) = sales d"
    using r by simp
next
  let ?it = "it\<lparr>it_quantity := Some (p_quantity p)\<rparr>"
  let ?b = "b\<lparr>sb_items := Some (pre @ ?it # post)\<rparr>"
  assume B: "0 < p_quantity p \<and> p_quantity p < 10 ^ 21 \<and>
          schemaValid (inventory d) \<and> normalizeString (sb_billId b) \<noteq> [] \<and>
          saleLoop ev (Suc (length pre)) post (fst (saleLoop ev 0 (pre @ [?it]) (inventory d)))
            = (ps2, Inr (ups2, lines2))"
  have "schemaValid (fst (saleLoop ev 0 pre (inventory d)))"
    using B by (intro saleLoop_schemaValid) simp
  then have "schemaValid ps1"
    using assms(3) by simp
  moreover have "p \<in> set ps1"
    using assms(4) by (rule loadProductByIdentifier_in_set)
  ultimately have vp: "validateProduct p"
    by (simp add: schemaValid_member)
  have same: "numberParseInt (p_quantity p) = p_quantity p"
    using B by (intro numberParseInt_small) simp
  obtain ps1' p' l' where step: "saleStep ev (length pre) ?it ps1 = Inr (ps1', p', l')"
    using saleStep_ok[of ?it ev ps1 p "length pre"] assms(4) B vp same
    by (auto simp: parseInteger_def)
  have upto: "saleLoop ev 0 (pre @ [?it]) (inventory d)
      = (ps1', Inr (ups1 @ [p'], lines1 @ [l']))"
    using assms(3) step by (simp add: saleLoop_append)
  then have rest: "saleLoop ev (Suc (length pre)) post ps1' = (ps2, Inr (ups2, lines2))"
    using B by simp
  have "saleLoop ev 0 ((pre @ [?it]) @ post) (inventory d)
      = (ps2, Inr ((ups1 @ [p']) @ ups2, (lines1 @ [l']) @ lines2))"
    unfolding saleLoop_append[of ev 0 "pre @ [?it]" post] using upto rest by simp
  then have all: "saleLoop ev 0 (pre @ ?it # post) (inventory d)
      = (ps2, Inr (ups1 @ p' # ups2, lines1 @ l' # lines2))"
    by simp
  have "list_all (\<lambda>l. si_productId l \<noteq> [] \<and> si_productName l \<noteq> []) (lines1 @ l' # lines2)"
    using saleLoop_lines_valid[OF all] B by blast
  then have vs: "validateSale (buildSale ?b (lines1 @ l' # lines2))"
    using B by (simp add: validateSale_buildSale)
  have "\<exists>dash. fst (sales_post ev ?b d)
            = Response 201 (SaleBody (buildSale ?b (lines1 @ l' # lines2)) (ups1 @ p' # ups2) dash) \<and>
          sales (snd (sales_post ev ?b d)) = sales d @ [buildSale ?b (lines1 @ l' # lines2)] \<and>
          inventory (snd (sales_post ev ?b d)) = ps2"
    using assms(1) all vs by (intro sales_post_success) simp_all
  with all show "\<exists>ups lines dash.
      saleLoop ev 0 (pre @ ?it # post) (inventory d) = (ps2, Inr (ups, lines)) \<and>
      fst (sales_post ev ?b d) = Response 201 (SaleBody (buildSale ?b lines) ups dash) \<and>
      sales (snd (sales_post ev ?b d)) = sales d @ [buildSale ?b lines] \<and>
      inventory (snd (sales_post ev ?b d)) = ps2"
    by blast
qed

theorem insufficient_stock_then_reduced_witness:
  "(truthy (sb_billId (exampleSale [exampleItem 2, exampleItem 7])) \<and>
    sb_items (exampleSale [exampleItem 2, exampleItem 7])
      = Some ([exampleItem 2] @ exampleItem 7 # []) \<and>
    saleLoop exampleEnv 0 [exampleItem 2] (inventory exampleDb)
      = ([exampleProduct\<lparr>p_quantity := 3\<rparr>],
         Inr ([exampleProduct\<lparr>p_quantity := 3\<rparr>],
              [\<lparr>si_productId = ''65f1c0de0000000000000001'', si_productName = ''Tarpaulin'',
                si_quantity = 2, si_price = 10, si_pricePerQuantity = 20, si_total = 20,
                si_size = ''12x10'', si_gsm = ''120''\<rparr>])) \<and>
    loadProductByIdentifier exampleEnv (it_productId (exampleItem 7))
        [exampleProduct\<lparr>p_quantity := 3\<rparr>]
      = Some (exampleProduct\<lparr>p_quantity := 3\<rparr>) \<and>
    0 < parseInteger (it_quantity (exampleItem 7)) 0 \<and>
    p_quantity (exampleProduct\<lparr>p_quantity := 3\<rparr>) < parseInteger (it_quantity (exampleItem 7)) 0 \<and>
    0 < p_quantity (exampleProduct\<lparr>p_quantity := 3\<rparr>) \<and>
    p_quantity (exampleProduct\<lparr>p_quantity := 3\<rparr>) < 10 ^ 21 \<and>
    schemaValid (inventory exampleDb) \<and>
    normalizeString (sb_billId (exampleSale [exampleItem 2, exampleItem 7])) \<noteq> [] \<and>
    saleLoop exampleEnv (Suc (length [exampleItem 2])) []
       (fst (saleLoop exampleEnv 0 ([exampleItem 2] @
          [(exampleItem 7)\<lparr>it_quantity := Some (p_quantity (exampleProduct\<lparr>p_quantity := 3\<rparr>))\<rparr>])
          (inventory exampleDb)))
      = ([exampleProduct\<lparr>p_quantity := 0\<rparr>], Inr ([], []))) \<and>
   (fst (sales_post exampleEnv (exampleSale [exampleItem 2, exampleItem 7]) exampleDb)
      = Response 500 (ErrorBody ''Insufficient stock for product Tarpaulin'') \<and>
    status (fst (sales_post exampleEnv (exampleSale [exampleItem 2, exampleItem 3]) exampleDb))
      = 201 \<and>
    map p_quantity (inventory (snd (sales_post exampleEnv
        (exampleSale [exampleItem 2, exampleItem 3]) exampleDb))) = [0] \<and>
    map (\<lambda>s. map si_quantity (s_items s)) (sales (snd (sales_post exampleEnv
        (exampleSale [exampleItem 2, exampleItem 3]) exampleDb))) = [[2, 3]]) \<and>
   fst (sales_post exampleEnv (exampleSale [exampleItem 2, exampleItem 7]) exampleDb)
     = Response 500 (ErrorBody (''Insufficient stock for product ''
         @ p_name (exampleProduct\<lparr>p_quantity := 3\<rparr>))) \<and>
   sales (snd (sales_post exampleEnv (exampleSale [exampleItem 2, exampleItem 7]) exampleDb))
     = sales exampleDb \<and>
   (\<exists>ups lines dash.
      saleLoop exampleEnv 0 ([exampleItem 2] @
          (exampleItem 7)\<lparr>it_quantity := Some (p_quantity (exampleProduct\<lparr>p_quantity := 3\<rparr>))\<rparr>
          # []) (inventory exampleDb)
        = ([exampleProduct\<lparr>p_quantity := 0\<rparr>], Inr (ups, lines)) \<and>
      fst (sales_post exampleEnv
         ((exampleSale [exampleItem 2, exampleItem 7])
            \<lparr>sb_items := Some ([exampleItem 2] @
               (exampleItem 7)\<lparr>it_quantity := Some (p_quantity (exampleProduct\<lparr>p_quantity := 3\<rparr>))\<rparr>
               # [])\<rparr>) exampleDb)
        = Response 201 (SaleBody (buildSale
         ((exampleSale [exampleItem 2, exampleItem 7])
            \<lparr>sb_items := Some ([exampleItem 2] @
               (exampleItem 7)\<lparr>it_quantity := Some (p_quantity (exampleProduct\<lparr>p_quantity := 3\<rparr>))\<rparr>
               # [])\<rparr>) lines) ups dash) \<and>
      sales (snd (sales_post exampleEnv
         ((exampleSale [exampleItem 2, exampleItem 7])
            \<lparr>sb_items := Some ([exampleItem 2] @
               (exampleItem 7)\<lparr>it_quantity := Some (p_quantity (exampleProduct\<lparr>p_quantity := 3\<rparr>))\<rparr>
               # [])\<rparr>) exampleDb))
        = sales exampleDb @ [buildSale
         ((exampleSale [exampleItem 2, exampleItem 7])
            \<lparr>sb_items := Some ([exampleItem 2] @
               (exampleItem 7)\<lparr>it_quantity := Some (p_quantity (exampleProduct\<lparr>p_quantity := 3\<rparr>))\<rparr>
               # [])\<rparr>) lines] \<and>
      inventory (snd (sales_post exampleEnv
         ((exampleSale [exampleItem 2, exampleItem 7])
            \<lparr>sb_items := Some ([exampleItem 2] @
               (exampleItem 7)\<lparr>it_quantity := Some (p_quantity (exampleProduct\<lparr>p_quantity := 3\<rparr>))\<rparr>
               # [])\<rparr>) exampleDb))
        = [exampleProduct\<lparr>p_quantity := 0\<rparr>])"
proof -
  have h: "truthy (sb_billId (exampleSale [exampleItem 2, exampleItem 7])) \<and>
    sb_items (exampleSale [exampleItem 2, exampleItem 7])
      = Some ([exampleItem 2] @ exampleItem 7 # []) \<and>
    saleLoop exampleEnv 0 [exampleItem 2] (inventory exampleDb)
      = ([exampleProduct\<lparr>p_quantity := 3\<rparr>],
         Inr ([exampleProduct\<lparr>p_quantity := 3\<rparr>],
              [\<lparr>si_productId = ''65f1c0de0000000000000001'', si_productName = ''Tarpaulin'',
                si_quantity = 2, si_price = 10, si_pricePerQuantity = 20, si_total = 20,
                si_size = ''12x10'', si_gsm = ''120''\<rparr>])) \<and>
    loadProductByIdentifier exampleEnv (it_productId (exampleItem 7))
        [exampleProduct\<lparr>p_quantity := 3\<rparr>]
      = Some (exampleProduct\<lparr>p_quantity := 3\<rparr>) \<and>
    0 < parseInteger (it_quantity (exampleItem 7)) 0 \<and>
    p_quantity (exampleProduct\<lparr>p_quantity := 3\<rparr>) < parseInteger (it_quantity (exampleItem 7)) 0 \<and>
    0 < p_quantity (exampleProduct\<lparr>p_quantity := 3\<rparr>) \<and>
    p_quantity (exampleProduct\<lparr>p_quantity := 3\<rparr>) < 10 ^ 21 \<and>
    schemaValid (inventory exampleDb) \<and>
    normalizeString (sb_billId (exampleSale [exampleItem 2, exampleItem 7])) \<noteq> [] \<and>
    saleLoop exampleEnv (Suc (length [exampleItem 2])) []
       (fst (saleLoop exampleEnv 0 ([exampleItem 2] @
          [(exampleItem 7)\<lparr>it_quantity := Some (p_quantity (exampleProduct\<lparr>p_quantity := 3\<rparr>))\<rparr>])
          (inventory exampleDb)))
      = ([exampleProduct\<lparr>p_quantity := 0\<rparr>], Inr ([], []))"
    by code_simp
  have c: "fst (sales_post exampleEnv (exampleSale [exampleItem 2, exampleItem 7]) exampleDb)
      = Response 500 (ErrorBody ''Insufficient stock for product Tarpaulin'') \<and>
    status (fst (sales_post exampleEnv (exampleSale [exampleItem 2, exampleItem 3]) exampleDb))
      = 201 \<and>
    map p_quantity (inventory (snd (sales_post exampleEnv
        (exampleSale [exampleItem 2, exampleItem 3]) exampleDb))) = [0] \<and>
    map (\<lambda>s. map si_quantity (s_items s)) (sales (snd (sales_post exampleEnv
        (exampleSale [exampleItem 2, exampleItem 3]) exampleDb))) = [[2, 3]]"
    by code_simp
  from h c insufficient_stock_then_reduced[where b = "exampleSale [exampleItem 2, exampleItem 7]"
      and pre = "[exampleItem 2]" and it = "exampleItem 7" and post = "[]" and d = exampleDb
      and ?ps1.0 = "[exampleProduct\<lparr>p_quantity := 3\<rparr>]"
      and ?ups1.0 = "[exampleProduct\<lparr>p_quantity := 3\<rparr>]"
      and ?lines1.0 = "[\<lparr>si_productId = ''65f1c0de0000000000000001'',
                si_productName = ''Tarpaulin'',
                si_quantity = 2, si_price = 10, si_pricePerQuantity = 20, si_total = 20,
                si_size = ''12x10'', si_gsm = ''120''\<rparr>]"
      and p = "exampleProduct\<lparr>p_quantity := 3\<rparr>" and ev = exampleEnv
      and ?ps2.0 = "[exampleProduct\<lparr>p_quantity := 0\<rparr>]" and ?ups2.0 = "[]"
      and ?lines2.0 = "[]"]
  show ?thesis by blast
qed

text \<open>
  The claim as worded fails in three ways. With nothing on hand a request for 1 is refused
  for insufficient stock, and the same request reduced to the on-hand amount 0 is refused
  by the quantity check. An earlier item that is not found stops the batch with its own
  error. A stored quantity of \<open>10 ^ 21\<close> is read as 1, so the request reduced to the
  on-hand amount is refused for insufficient stock again.
\<close>

theorem insufficient_stock_counterexample:
  "map p_quantity (inventory (exampleDb\<lparr>inventory := [exampleProduct\<lparr>p_quantity := 0\<rparr>]\<rparr>)) = [0] \<and>
   fst (sales_post exampleEnv (exampleSale [exampleItem 1])
          (exampleDb\<lparr>inventory := [exampleProduct\<lparr>p_quantity := 0\<rparr>]\<rparr>))
     = Response 500 (ErrorBody ''Insufficient stock for product Tarpaulin'') \<and>
   fst (sales_post exampleEnv (exampleSale [exampleItem 0])
          (exampleDb\<lparr>inventory := [exampleProduct\<lparr>p_quantity := 0\<rparr>]\<rparr>))
     = Response 500 (ErrorBody ''items[0].quantity must be greater than 0'') \<and>
   sales (snd (sales_post exampleEnv (exampleSale [exampleItem 0])
          (exampleDb\<lparr>inventory := [exampleProduct\<lparr>p_quantity := 0\<rparr>]\<rparr>))) = [] \<and>
   fst (sales_post exampleEnv
          (exampleSale [(exampleItem 1)\<lparr>it_productId := Some ''SKU-9''\<rparr>, exampleItem 7])
          exampleDb)
     = Response 500 (ErrorBody ''Product not found for id SKU-9'') \<and>
   fst (sales_post exampleEnv (exampleSale [exampleItem (2 * 10 ^ 21)])
          (exampleDb\<lparr>inventory := [exampleProduct\<lparr>p_quantity := 10 ^ 21\<rparr>]\<rparr>))
     = Response 500 (ErrorBody ''Insufficient stock for product Tarpaulin'') \<and>
   fst (sales_post exampleEnv (exampleSale [exampleItem (10 ^ 21)])
          (exampleDb\<lparr>inventory := [exampleProduct\<lparr>p_quantity := 10 ^ 21\<rparr>]\<rparr>))
     = Response 500 (ErrorBody ''Insufficient stock for product Tarpaulin'') \<and>
   sales (snd (sales_post exampleEnv (exampleSale [exampleItem (10 ^ 21)])
          (exampleDb\<lparr>inventory := [exampleProduct\<lparr>p_quantity := 10 ^ 21\<rparr>]\<rparr>))) = []"
  by code_simp

section \<open>Purchases\<close>

lemma find_rel:
  assumes "list_all2 R xs ys" and "\<And>x y. R x y \<Longrightarrow> P x = P y"
  shows "rel_option R (find P xs) (find P ys)"
  using assms by (induction rule: list_all2_induct) auto

lemma load_sameFrame:
  assumes "list_all2 sameFrame ps ps'"
  shows "rel_option sameFrame (loadProductByIdentifier ev x ps)
           (loadProductByIdentifier ev x ps')"
proof -
  have c: "rel_option sameFrame (findByCode c ps) (findByCode c ps')" for c
    unfolding findByCode_def using assms by (rule find_rel) (simp add: sameFrame_def)
  have i: "rel_option sameFrame (findById c ps) (findById c ps')" for c
    unfolding findById_def using assms by (rule find_rel) (simp add: sameFrame_def)
  show ?thesis
  proof (cases "truthy x")
    case False
    then show ?thesis by (simp add: loadProductByIdentifier_def)
  next
    case True
    let ?c = "toUpperCase ev (normalizeString x)"
    show ?thesis
    proof (cases "findByCode ?c ps")
      case None
      then have "findByCode ?c ps' = None" using c[of ?c] by (cases "findByCode ?c ps'") simp_all
      then show ?thesis
        using True None i[of "normalizeString x"]
        by (simp add: loadProductByIdentifier_def Let_def)
    next
      case (Some p)
      then obtain p' where "findByCode ?c ps' = Some p'" "sameFrame p p'"
        using c[of ?c] by (cases "findByCode ?c ps'") simp_all
      then show ?thesis
        using True Some by (simp add: loadProductByIdentifier_def Let_def)
    qed
  qed
qed


lemma validPurchaseItem_sameFrame:
  assumes "list_all2 sameFrame ps ps'"
  shows "validPurchaseItem ev ps' it = validPurchaseItem ev ps it"
  using load_sameFrame[OF assms, of ev "it_productId it"]
  by (cases "loadProductByIdentifier ev (it_productId it) ps";
      cases "loadProductByIdentifier ev (it_productId it) ps'")
     (simp_all add: validPurchaseItem_def)








lemma purchaseStep_session:
  assumes "\<not> (s \<and> \<not> transactionsSupported ev)"
  shows "purchaseStep ev s i it ps
         = purchaseStep (ev\<lparr>transactionsSupported := t\<rparr>) False i it ps"
proof -
  let ?ev = "ev\<lparr>transactionsSupported := t\<rparr>"
  have f: "(s \<and> \<not> transactionsSupported ev) = False" using assms by simp
  have u: "toUpperCase ?ev = toUpperCase ev"
    by (rule ext) (simp add: toUpperCase_def)
  have l: "purchases_loadProductByIdentifier ev s x ps
           = purchases_loadProductByIdentifier ?ev False x ps" for x
    by (simp add: purchases_loadProductByIdentifier_def f u)
  have v: "saveProductIn ev s doc ps = saveProductIn ?ev False doc ps" for doc
    by (simp add: saveProductIn_def saveProduct_def f)
  show ?thesis
    unfolding purchaseStep_def l v ..
qed

lemma purchaseLoop_session:
  assumes "\<not> (s \<and> \<not> transactionsSupported ev)"
  shows "purchaseLoop ev s i items ps
         = purchaseLoop (ev\<lparr>transactionsSupported := t\<rparr>) False i items ps"
proof (induction items arbitrary: i ps)
  case Nil
  then show ?case by simp
next
  case (Cons it its)
  show ?case
    by (simp only: purchaseLoop.simps purchaseStep_session[OF assms, of i it ps t] Cons.IH)
qed

lemma persistPurchase_session:
  assumes "\<not> (s \<and> \<not> transactionsSupported ev)"
  shows "persistPurchase ev s b d
         = persistPurchase (ev\<lparr>transactionsSupported := t\<rparr>) False b d"
proof -
  have f: "(s \<and> \<not> transactionsSupported ev) = False" using assms by simp
  show ?thesis
    unfolding persistPurchase_def f purchaseLoop_session[OF assms, of _ _ _ t]
    by (simp add: Let_def split: option.splits prod.splits sum.splits)
qed

lemma persistPurchase_same:
  "\<not> (s \<and> \<not> transactionsSupported ev)
   \<Longrightarrow> persistPurchase ev s b d = persistPurchase ev False b d"
  using persistPurchase_session[of s ev b d "transactionsSupported ev"] by simp

lemma purchaseStep_ok:
  assumes "validPurchaseItem ev ps it" and "schemaValid ps"
  shows "\<exists>ps' p' l. purchaseStep ev False i it ps = Inr (ps', p', l)"
proof -
  from assms(1) obtain p where
    load: "loadProductByIdentifier ev (it_productId it) ps = Some p"
    and tr: "truthy (it_productId it)" and pos: "0 < parseInteger (it_quantity it) 0"
    by (auto simp: validPurchaseItem_def)
  have "p \<in> set ps" using load by (rule loadProductByIdentifier_in_set)
  then have "validateProduct p" using assms(2) by (simp add: schemaValid_member)
  moreover have "purchases_loadProductByIdentifier ev False (it_productId it) ps = Inr (Some p)"
    using load tr
    by (auto simp: purchases_loadProductByIdentifier_def loadProductByIdentifier_def Let_def
        split: option.splits if_splits)
  ultimately show ?thesis
    using tr pos
    by (simp add: purchaseStep_def Let_def saveProductIn_def saveProduct_def validateProduct_def)
qed

lemma purchaseStep_schemaValid:
  assumes "purchaseStep ev s i it ps = Inr (ps', p', l)" and "schemaValid ps"
  shows "schemaValid ps'"
proof -
  from assms(1) obtain p where
    load: "loadProductByIdentifier ev (it_productId it) ps = Some p"
    and p': "p' = p\<lparr>p_quantity :=
                roundToDouble (numberParseInt (p_quantity p) + parseInteger (it_quantity it) 0),
           p_price := (if parseNumber (it_price it) 0 > 0 then parseNumber (it_price it) 0
                       else p_price p)\<rparr>"
    and v: "validateProduct p'"
    and ps': "ps' = updateOne (p_id p) (\<lambda>stored. p') ps"
    by (elim purchaseStep_InrE)
  have "p \<in> set ps" using load by (rule loadProductByIdentifier_in_set)
  with assms(2) have "idString (p_id p) \<noteq> []" by (simp add: schemaValid_member)
  then have "idString (p_id p') \<noteq> []" by (simp add: p')
  with assms(2) show ?thesis unfolding ps' using v by (intro updateOne_schemaValid)
qed

text \<open>
  A valid batch goes through the loop without a session; every line names its product and
  carries the quantity of its item.
\<close>

lemma purchaseLoop_ok:
  assumes "list_all (validPurchaseItem ev ps) items" and "schemaValid ps"
    and "distinct (map p_id ps)"
  shows "\<exists>ps' ups lines. purchaseLoop ev False i items ps = (ps', Inr (ups, lines)) \<and>
           list_all (\<lambda>l. pi_productId l \<noteq> [] \<and> pi_productName l \<noteq> []) lines \<and>
           map pi_quantity lines = map (\<lambda>it. parseInteger (it_quantity it) 0) items \<and>
           length ups = length items"
  using assms
proof (induction items arbitrary: i ps)
  case Nil
  then show ?case by simp
next
  case (Cons it its)
  from Cons.prems obtain ps1 p1 l1 where
    step: "purchaseStep ev False i it ps = Inr (ps1, p1, l1)"
    using purchaseStep_ok[of ev ps it i] by auto
  have frame: "list_all2 sameFrame ps ps1"
    using step Cons.prems(3) by (rule purchaseStep_sameFrame)
  have v1: "schemaValid ps1" using step Cons.prems(2) by (rule purchaseStep_schemaValid)
  have d1: "distinct (map p_id ps1)" using Cons.prems(3) sameFrame_ids[OF frame] by simp
  have "validPurchaseItem ev ps1 = validPurchaseItem ev ps"
    by (rule ext) (rule validPurchaseItem_sameFrame[OF frame])
  then have "list_all (validPurchaseItem ev ps1) its"
    using Cons.prems(1) by simp
  from Cons.IH[OF this v1 d1, of "Suc i"] obtain ps' ups lines where
    rest: "purchaseLoop ev False (Suc i) its ps1 = (ps', Inr (ups, lines))"
    and lv: "list_all (\<lambda>l. pi_productId l \<noteq> [] \<and> pi_productName l \<noteq> []) lines"
    and lq: "map pi_quantity lines = map (\<lambda>it. parseInteger (it_quantity it) 0) its"
    and lu: "length ups = length its"
    by blast
  from step obtain p where
    load: "loadProductByIdentifier ev (it_productId it) ps = Some p"
    and p': "p1 = p\<lparr>p_quantity :=
                roundToDouble (numberParseInt (p_quantity p) + parseInteger (it_quantity it) 0),
           p_price := (if parseNumber (it_price it) 0 > 0 then parseNumber (it_price it) 0
                       else p_price p)\<rparr>"
    and l: "l1 = \<lparr>pi_productId = idString (p_id p1), pi_productName = p_name p1,
          pi_quantity = parseInteger (it_quantity it) 0,
          pi_price = p_price p1,
          pi_total = p_price p1 * of_int (parseInteger (it_quantity it) 0),
          pi_size = normalizeString (p_size p1), pi_gsm = normalizeString (p_gsm p1)\<rparr>"
    by (elim purchaseStep_InrE)
  have "p \<in> set ps" using load by (rule loadProductByIdentifier_in_set)
  then have "idString (p_id p) \<noteq> [] \<and> p_name p \<noteq> []"
    using schemaValid_member[OF Cons.prems(2), of p] by (simp add: validateProduct_def)
  then have "pi_productId l1 \<noteq> [] \<and> pi_productName l1 \<noteq> []" using l p' by simp
  moreover have "pi_quantity l1 = parseInteger (it_quantity it) 0" using l by simp
  ultimately show ?case using step rest lv lq lu by simp
qed

lemma stripLeading_Nil: "stripLeading ws [] = []"
proof -
  have "find (\<lambda>w. w \<noteq> [] \<and> startsWith [] w) ws = None"
    by (induction ws) (auto simp: startsWith_def)
  then show ?thesis by (subst stripLeading.simps) simp
qed

lemma trim_Nil: "trim [] = []"
  by (simp add: trim_def stripLeading_Nil)

lemma normalizeString_truthy: "normalizeString v \<noteq> [] \<Longrightarrow> truthy v"
  by (cases v) (auto simp: normalizeString_def truthy_def trim_Nil)

lemma transactionRejected_marker:
  "includes_str (message TransactionRejected) transactionMarker"
  by (simp add: transactionMarker_def startsWith_def)

lemma purchaseLoop_rejected:
  assumes "\<not> transactionsSupported ev" and "validPurchaseItem ev ps it"
  shows "purchaseLoop ev True i (it # its) ps = (ps, Inl TransactionRejected)"
  using assms
  by (simp add: purchaseStep_def validPurchaseItem_def purchases_loadProductByIdentifier_def
      Let_def)

lemma persistPurchase_valid:
  assumes "validPurchaseBatch ev (inventory d) b" and "schemaValid (inventory d)"
    and "distinct (map p_id (inventory d))"
  obtains items ps' ups lines where
    "pb_items b = Some items" "items \<noteq> []"
    "list_all (validPurchaseItem ev (inventory d)) items"
    "purchaseLoop ev False 0 items (inventory d) = (ps', Inr (ups, lines))"
    "map pi_quantity lines = map (\<lambda>it. parseInteger (it_quantity it) 0) items"
    "length ups = length items"
    "persistPurchase ev False b d
       = (d\<lparr>inventory := ps', purchases := purchases d @ [buildPurchase b lines]\<rparr>,
          Inr (buildPurchase b lines, ups))"
proof -
  from assms(1) obtain items where items: "pb_items b = Some items" "items \<noteq> []"
    "list_all (validPurchaseItem ev (inventory d)) items"
    and bill: "normalizeString (pb_billId b) \<noteq> []"
    by (auto simp: validPurchaseBatch_def split: option.splits)
  from purchaseLoop_ok[OF items(3) assms(2,3), of 0] obtain ps' ups lines where
    loop: "purchaseLoop ev False 0 items (inventory d) = (ps', Inr (ups, lines))"
    and lv: "list_all (\<lambda>l. pi_productId l \<noteq> [] \<and> pi_productName l \<noteq> []) lines"
    and lq: "map pi_quantity lines = map (\<lambda>it. parseInteger (it_quantity it) 0) items"
    and lu: "length ups = length items"
    by blast
  have "validatePurchase (buildPurchase b lines)"
    using bill lv by (simp add: validatePurchase_def buildPurchase_def)
  then have "persistPurchase ev False b d
       = (d\<lparr>inventory := ps', purchases := purchases d @ [buildPurchase b lines]\<rparr>,
          Inr (buildPurchase b lines, ups))"
    using items(1) loop by (simp add: persistPurchase_def Let_def)
  with items loop lq lu show ?thesis by (rule that)
qed

lemma purchaseResponse_eq:
  "purchaseResponse ev (u, ups) d
   = (if NODE_ENV ev \<noteq> Some ''test''
      then (Response 201 (PurchaseBody u ups (Some (snapshot_spec d))),
            d\<lparr>dashboard_stats := Some (snapshot_spec d)\<rparr>)
      else (Response 201 (PurchaseBody u ups None), d))"
  by (simp add: purchaseResponse_def recalculate_eq)

text \<open>
  The first attempt of a valid batch: with a session on a server without transactions it
  is rejected at the first read and nothing is written; in every other case it is the run
  without a session.
\<close>

lemma persistPurchase_rejected:
  assumes "\<not> transactionsSupported ev" and "pb_items b = Some items" and "items \<noteq> []"
    and "list_all (validPurchaseItem ev (inventory d)) items"
  shows "persistPurchase ev True b d = (d, Inl TransactionRejected)"
proof -
  obtain it its where its: "items = it # its" using assms(3) by (cases items) auto
  have "purchaseLoop ev True 0 items (inventory d) = (inventory d, Inl TransactionRejected)"
    unfolding its using assms(1,4) its by (intro purchaseLoop_rejected) simp_all
  then show ?thesis
    using assms(2) by (simp add: persistPurchase_def)
qed

lemma purchases_post_valid:
  assumes "validPurchaseBatch ev (inventory d) b" and "schemaValid (inventory d)"
    and "distinct (map p_id (inventory d))"
  shows "\<exists>items ps' ups lines.
           pb_items b = Some items \<and>
           purchaseLoop ev False 0 items (inventory d) = (ps', Inr (ups, lines)) \<and>
           map pi_quantity lines = map (\<lambda>it. parseInteger (it_quantity it) 0) items \<and>
           length ups = length items \<and>
           purchases_post ev b d
             = purchaseResponse ev (buildPurchase b lines, ups)
                 (d\<lparr>inventory := ps', purchases := purchases d @ [buildPurchase b lines]\<rparr>)"
proof -
  from assms obtain items ps' ups lines where
    items: "pb_items b = Some items" "items \<noteq> []"
      "list_all (validPurchaseItem ev (inventory d)) items"
    and loop: "purchaseLoop ev False 0 items (inventory d) = (ps', Inr (ups, lines))"
    and lq: "map pi_quantity lines = map (\<lambda>it. parseInteger (it_quantity it) 0) items"
    and lu: "length ups = length items"
    and ok: "persistPurchase ev False b d
       = (d\<lparr>inventory := ps', purchases := purchases d @ [buildPurchase b lines]\<rparr>,
          Inr (buildPurchase b lines, ups))"
    by (elim persistPurchase_valid)
  have bill: "truthy (pb_billId b)"
    using assms(1) by (simp add: validPurchaseBatch_def normalizeString_truthy)
  define s where "s = (transactionsRequested ev \<and> canUseTransactions ev)"
  have "purchases_post ev b d = purchaseResponse ev (buildPurchase b lines, ups)
      (d\<lparr>inventory := ps', purchases := purchases d @ [buildPurchase b lines]\<rparr>)"
  proof (cases "s \<and> \<not> transactionsSupported ev")
    case False
    then have "persistPurchase ev s b d = persistPurchase ev False b d"
      by (rule persistPurchase_same)
    then show ?thesis
      using ok bill items(1,2) unfolding s_def
      by (simp add: purchases_post_def Let_def)
  next
    case True
    then have "persistPurchase ev True b d = (d, Inl TransactionRejected)"
      using items by (intro persistPurchase_rejected) simp_all
    then show ?thesis
      using True ok bill items(1,2) transactionRejected_marker unfolding s_def
      by (simp add: purchases_post_def Let_def)
  qed
  with items(1) loop lq lu show ?thesis by blast
qed

lemma toUpperCase_env:
  "toUpperCase (ev\<lparr>transactionsSupported := t\<rparr>) = toUpperCase ev"
  by (rule ext) (simp add: toUpperCase_def)

lemma loadProductByIdentifier_env:
  "loadProductByIdentifier (ev\<lparr>transactionsSupported := t\<rparr>) = loadProductByIdentifier ev"
  by (intro ext) (simp add: loadProductByIdentifier_def toUpperCase_env Let_def)

lemma validPurchaseBatch_env:
  "validPurchaseBatch (ev\<lparr>transactionsSupported := t\<rparr>) ps b = validPurchaseBatch ev ps b"
proof -
  have "validPurchaseItem (ev\<lparr>transactionsSupported := t\<rparr>) ps = validPurchaseItem ev ps"
    by (rule ext) (simp add: validPurchaseItem_def loadProductByIdentifier_env)
  then show ?thesis by (simp add: validPurchaseBatch_def split: option.splits)
qed




text \<open>
  Claim C9. With transactions requested and \<^verbatim>\<open>canUseTransactions\<close> answering yes, on
  a server that rejects transactions, the transactional attempt of a valid purchase batch
  fails with the server's error and writes nothing; the handler then runs the whole batch
  again without a session. The response is 201 with the Purchase record built from the
  lines of that run (one line per item, with the item's quantity), the products that run
  updated, and the dashboard snapshot of the database it left (no snapshot under
  \<^verbatim>\<open>NODE_ENV=test\<close>); the database holds the inventory of that run, the new
  Purchase record and the snapshot. Response and database are exactly the ones a server
  with transaction support gives. (The \<^verbatim>\<open>_id\<close>s are distinct and the stored products
  satisfy their schema.)
\<close>

theorem fallback_after_rejected_transaction:
  assumes "transactionsRequested ev" and "canUseTransactions ev"
    and "\<not> transactionsSupported ev"
    and "distinct (map p_id (inventory d))"
    and "schemaValid (inventory d)" and "validPurchaseBatch ev (inventory d) b"
  shows "persistPurchase ev (transactionsRequested ev \<and> canUseTransactions ev) b d
           = (d, Inl TransactionRejected) \<and>
         (\<exists>items ps' ups lines.
            pb_items b = Some items \<and>
            purchaseLoop ev False 0 items (inventory d) = (ps', Inr (ups, lines)) \<and>
            map pi_quantity lines = map (\<lambda>it. parseInteger (it_quantity it) 0) items \<and>
            length ups = length items \<and>
            purchases_post ev b d
              = (if NODE_ENV ev \<noteq> Some ''test''
                 then (Response 201
                         (PurchaseBody (buildPurchase b lines) ups
                            (Some (snapshot_spec
                               (d\<lparr>inventory := ps',
                                  purchases := purchases d @ [buildPurchase b lines]\<rparr>)))),
                       d\<lparr>inventory := ps',
                         purchases := purchases d @ [buildPurchase b lines],
                         dashboard_stats :=
                           Some (snapshot_spec
                             (d\<lparr>inventory := ps',
                                purchases := purchases d @ [buildPurchase b lines]\<rparr>))\<rparr>)
                 else (Response 201 (PurchaseBody (buildPurchase b lines) ups None),
                       d\<lparr>inventory := ps',
                         purchases := purchases d @ [buildPurchase b lines]\<rparr>))) \<and>
         purchases_post ev b d = purchases_post (ev\<lparr>transactionsSupported := True\<rparr>) b d"
proof -
  let ?ev = "ev\<lparr>transactionsSupported := True\<rparr>"
  from purchases_post_valid[OF assms(6,5,4)] obtain items ps' ups lines where
    items: "pb_items b = Some items"
    and loop: "purchaseLoop ev False 0 items (inventory d) = (ps', Inr (ups, lines))"
    and lq: "map pi_quantity lines = map (\<lambda>it. parseInteger (it_quantity it) 0) items"
    and lu: "length ups = length items"
    and post: "purchases_post ev b d = purchaseResponse ev (buildPurchase b lines, ups)
      (d\<lparr>inventory := ps', purchases := purchases d @ [buildPurchase b lines]\<rparr>)"
    by blast
  have valid: "items \<noteq> []" "list_all (validPurchaseItem ev (inventory d)) items"
    using assms(6) items by (simp_all add: validPurchaseBatch_def)
  have "persistPurchase ev True b d = (d, Inl TransactionRejected)"
    using assms(3) items valid by (rule persistPurchase_rejected)
  then have rej: "persistPurchase ev (transactionsRequested ev \<and> canUseTransactions ev) b d
           = (d, Inl TransactionRejected)"
    using assms(1,2) by simp
  have "validPurchaseBatch ?ev (inventory d) b"
    using assms(6) by (simp add: validPurchaseBatch_env)
  from purchases_post_valid[OF this assms(5,4)] obtain items2 ps2 ups2 lines2 where
    loop2: "purchaseLoop ?ev False 0 items2 (inventory d) = (ps2, Inr (ups2, lines2))"
    and items2: "pb_items b = Some items2"
    and post2: "purchases_post ?ev b d = purchaseResponse ?ev (buildPurchase b lines2, ups2)
      (d\<lparr>inventory := ps2, purchases := purchases d @ [buildPurchase b lines2]\<rparr>)"
    by blast
  have "purchaseLoop ev False 0 items (inventory d)
        = purchaseLoop ?ev False 0 items (inventory d)"
    by (rule purchaseLoop_session) simp
  then have same: "ps2 = ps'" "ups2 = ups" "lines2 = lines"
    using loop loop2 items items2 by simp_all
  have eq: "purchases_post ev b d = purchases_post ?ev b d"
    unfolding post post2 same by (simp add: purchaseResponse_eq)
  have resp: "purchases_post ev b d
              = (if NODE_ENV ev \<noteq> Some ''test''
                 then (Response 201
                         (PurchaseBody (buildPurchase b lines) ups
                            (Some (snapshot_spec
                               (d\<lparr>inventory := ps',
                                  purchases := purchases d @ [buildPurchase b lines]\<rparr>)))),
                       d\<lparr>inventory := ps',
                         purchases := purchases d @ [buildPurchase b lines],
                         dashboard_stats :=
                           Some (snapshot_spec
                             (d\<lparr>inventory := ps',
                                purchases := purchases d @ [buildPurchase b lines]\<rparr>))\<rparr>)
                 else (Response 201 (PurchaseBody (buildPurchase b lines) ups None),
                       d\<lparr>inventory := ps',
                         purchases := purchases d @ [buildPurchase b lines]\<rparr>))"
    unfolding post by (simp add: purchaseResponse_eq)
  show ?thesis
    using rej items loop lq lu resp eq
    by (intro conjI exI[of _ items] exI[of _ ps'] exI[of _ ups] exI[of _ lines])
qed

theorem fallback_after_rejected_transaction_witness:
  "(transactionsRequested exampleEnv \<and> canUseTransactions exampleEnv \<and>
    \<not> transactionsSupported exampleEnv \<and>
    distinct (map p_id (inventory twoProductDb)) \<and> schemaValid (inventory twoProductDb) \<and>
    validPurchaseBatch exampleEnv (inventory twoProductDb) (examplePurchase [otherItem 2, exampleItem 4])) \<and>
   (purchaseLoop exampleEnv False 0 [otherItem 2, exampleItem 4] (inventory twoProductDb)
      = (restockedInventory, Inr (rev restockedInventory, pu_items restockPurchase)) \<and>
    purchases_post exampleEnv (examplePurchase [otherItem 2, exampleItem 4]) twoProductDb
      = (Response 201
           (PurchaseBody restockPurchase (rev restockedInventory)
              (Some \<lparr>d_totalSales = 0, d_inventoryValue = 108, d_orders = 1,
                     d_lowStock = 1, d_outOfStock = 0\<rparr>)),
         \<lparr>inventory = restockedInventory, sales = [], purchases = [restockPurchase],
          dashboard_stats =
            Some \<lparr>d_totalSales = 0, d_inventoryValue = 108, d_orders = 1,
                  d_lowStock = 1, d_outOfStock = 0\<rparr>\<rparr>)) \<and>
   (persistPurchase exampleEnv (transactionsRequested exampleEnv \<and> canUseTransactions exampleEnv) (examplePurchase [otherItem 2, exampleItem 4]) twoProductDb
           = (twoProductDb, Inl TransactionRejected) \<and>
         (\<exists>items ps' ups lines.
            pb_items (examplePurchase [otherItem 2, exampleItem 4]) = Some items \<and>
            purchaseLoop exampleEnv False 0 items (inventory twoProductDb) = (ps', Inr (ups, lines)) \<and>
            map pi_quantity lines = map (\<lambda>it. parseInteger (it_quantity it) 0) items \<and>
            length ups = length items \<and>
            purchases_post exampleEnv (examplePurchase [otherItem 2, exampleItem 4]) twoProductDb
              = (if NODE_ENV exampleEnv \<noteq> Some ''test''
                 then (Response 201
                         (PurchaseBody (buildPurchase (examplePurchase [otherItem 2, exampleItem 4]) lines) ups
                            (Some (snapshot_spec
                               (twoProductDb\<lparr>inventory := ps',
                                  purchases := purchases twoProductDb @ [buildPurchase (examplePurchase [otherItem 2, exampleItem 4]) lines]\<rparr>)))),
                       twoProductDb\<lparr>inventory := ps',
                         purchases := purchases twoProductDb @ [buildPurchase (examplePurchase [otherItem 2, exampleItem 4]) lines],
                         dashboard_stats :=
                           Some (snapshot_spec
                             (twoProductDb\<lparr>inventory := ps',
                                purchases := purchases twoProductDb @ [buildPurchase (examplePurchase [otherItem 2, exampleItem 4]) lines]\<rparr>))\<rparr>)
                 else (Response 201 (PurchaseBody (buildPurchase (examplePurchase [otherItem 2, exampleItem 4]) lines) ups None),
                       twoProductDb\<lparr>inventory := ps',
                         purchases := purchases twoProductDb @ [buildPurchase (examplePurchase [otherItem 2, exampleItem 4]) lines]\<rparr>))) \<and>
         purchases_post exampleEnv (examplePurchase [otherItem 2, exampleItem 4]) twoProductDb = purchases_post (exampleEnv\<lparr>transactionsSupported := True\<rparr>) (examplePurchase [otherItem 2, exampleItem 4]) twoProductDb)"
proof -
  have h: "transactionsRequested exampleEnv \<and> canUseTransactions exampleEnv \<and>
    \<not> transactionsSupported exampleEnv \<and>
    distinct (map p_id (inventory twoProductDb)) \<and> schemaValid (inventory twoProductDb) \<and>
    validPurchaseBatch exampleEnv (inventory twoProductDb) (examplePurchase [otherItem 2, exampleItem 4])"
    by code_simp
  have c: "purchaseLoop exampleEnv False 0 [otherItem 2, exampleItem 4] (inventory twoProductDb)
      = (restockedInventory, Inr (rev restockedInventory, pu_items restockPurchase)) \<and>
    purchases_post exampleEnv (examplePurchase [otherItem 2, exampleItem 4]) twoProductDb
      = (Response 201
           (PurchaseBody restockPurchase (rev restockedInventory)
              (Some \<lparr>d_totalSales = 0, d_inventoryValue = 108, d_orders = 1,
                     d_lowStock = 1, d_outOfStock = 0\<rparr>)),
         \<lparr>inventory = restockedInventory, sales = [], purchases = [restockPurchase],
          dashboard_stats =
            Some \<lparr>d_totalSales = 0, d_inventoryValue = 108, d_orders = 1,
                  d_lowStock = 1, d_outOfStock = 0\<rparr>\<rparr>)"
    by code_simp
  from h c fallback_after_rejected_transaction[where ev = exampleEnv and d = twoProductDb
      and b = "examplePurchase [otherItem 2, exampleItem 4]"]
  show ?thesis by blast
qed

end
